theory Spec2Isabelle
  imports Main "HOL-Library.Word" "HOL-Library.AList" "HOL-Library.Char_ord"
    "HOL-Library.List_Lexorder"
begin

section \<open>Common types\<close>

text \<open>
  A Go byte slice is a list of characters (a character of HOL is a byte); slices are
  compared as \<^verbatim>\<open>bytes.Compare\<close> does, lexicographically.
\<close>

type_synonym bytes = string

text \<open>
  The error values of the three packages. An error made by \<^verbatim>\<open>errors.New\<close> or
  \<^verbatim>\<open>fmt.Errorf\<close> in the source has a constructor of its own; the errors of the
  collaborators (JSON encoder, bolt engine, SQL driver, file system, blockchain node) carry
  a description.
\<close>

datatype error =
    ErrRangeTooBroad
  | ErrNoRows
  | ErrNoVersion "64 word"
  | Panic string
  | ErrJSON string
  | ErrBolt string
  | ErrSQL string
  | ErrFile string
  | ErrNode string

section \<open>Rebroadcaster (package blockchain)\<close>

text \<open>
  \<^verbatim>\<open>Rebroadcaster.clients\<close> is a Go map from node name to client: an association list
  with each name once, in the order in which \<^verbatim>\<open>range\<close> visits it. The answer of a
  node to \<^verbatim>\<open>SendTransaction\<close> under its three-second context is a parameter
  \<open>send\<close>: \<open>None\<close> is acceptance, \<open>Some e\<close> an error (a timeout included).

  The state of one call of \<^verbatim>\<open>Broadcast\<close>: the \<^verbatim>\<open>sync.Map\<close> of failures, the counter of
  the \<^verbatim>\<open>sync.WaitGroup\<close>, and the calls to the nodes in the order in which they begin
  and end.
\<close>

type_synonym node_id = string

datatype event = Submit node_id | Done node_id

record broadcast_state =
  failures :: "(node_id \<times> error) list"
  wg :: int
  events :: "event list"

text \<open>
  \<^verbatim>\<open>broadcast\<close> (lines 20-29): send, store the error if there is one, and on return
  run the deferred \<^verbatim>\<open>wg.Done()\<close>.
\<close>

definition broadcast ::
  "('c \<Rightarrow> 'tx \<Rightarrow> error option) \<Rightarrow> node_id \<Rightarrow> 'c \<Rightarrow> 'tx \<Rightarrow> broadcast_state \<Rightarrow> broadcast_state"
where
  "broadcast send ident client tx s =
     (let s1 = s\<lparr>events := events s @ [Submit ident]\<rparr>;
          s2 = (case send client tx of
                  Some err \<Rightarrow> s1\<lparr>failures := AList.update ident err (failures s1)\<rparr>
                | None \<Rightarrow> s1)
      in s2\<lparr>wg := wg s2 - 1, events := events s2 @ [Done ident]\<rparr>)"

text \<open>
  The loop of \<^verbatim>\<open>Broadcast\<close> (lines 34-39). The source calls \<^verbatim>\<open>self.broadcast\<close> as an
  ordinary function (there is no \<^verbatim>\<open>go\<close> statement), so an iteration ends when the
  call has returned.
\<close>

fun broadcast_all ::
  "('c \<Rightarrow> 'tx \<Rightarrow> error option) \<Rightarrow> 'tx \<Rightarrow> (node_id \<times> 'c) list \<Rightarrow> broadcast_state \<Rightarrow> broadcast_state"
where
  "broadcast_all send tx [] s = s"
| "broadcast_all send tx ((ident, client) # rest) s =
     broadcast_all send tx rest (broadcast send ident client tx (s\<lparr>wg := wg s + 1\<rparr>))"

text \<open>
  \<^verbatim>\<open>Broadcast\<close> (lines 31-47). \<^verbatim>\<open>wg.Wait()\<close> returns when the counter is zero; no other
  goroutine exists that could lower it, so with a counter other than zero the call would
  never return: \<open>None\<close>. Then the failures are copied into an ordinary map and the
  boolean is computed from the two sizes.
\<close>

definition Broadcast ::
  "('c \<Rightarrow> 'tx \<Rightarrow> error option) \<Rightarrow> (node_id \<times> 'c) list \<Rightarrow> 'tx
     \<Rightarrow> ((node_id \<times> error) list \<times> bool) option"
where
  "Broadcast send clients tx =
     (let s = broadcast_all send tx clients \<lparr>failures = [], wg = 0, events = []\<rparr>
      in if wg s \<noteq> 0 then None
         else
           let result = fold (\<lambda>(key, val) r. AList.update key val r) (failures s) []
           in Some (result, length result \<noteq> length clients \<and> length clients > 0))"

text \<open>The calls to the nodes that one \<^verbatim>\<open>Broadcast\<close> makes, in order.\<close>

definition Broadcast_events ::
  "('c \<Rightarrow> 'tx \<Rightarrow> error option) \<Rightarrow> (node_id \<times> 'c) list \<Rightarrow> 'tx \<Rightarrow> event list"
where
  "Broadcast_events send clients tx =
     events (broadcast_all send tx clients \<lparr>failures = [], wg = 0, events = []\<rparr>)"

text \<open>The nodes that refuse the transaction, with their errors, in the order of the visit.\<close>

fun refusals :: "('c \<Rightarrow> 'tx \<Rightarrow> error option) \<Rightarrow> 'tx \<Rightarrow> (node_id \<times> 'c) list \<Rightarrow> (node_id \<times> error) list"
where
  "refusals send tx [] = []"
| "refusals send tx ((ident, client) # rest) =
     (case send client tx of
        Some err \<Rightarrow> (ident, err) # refusals send tx rest
      | None \<Rightarrow> refusals send tx rest)"

section \<open>Bolt storage (package storage)\<close>

text \<open>
  \<^verbatim>\<open>common.ActivityID\<close>, with the two fields that the source reads
  (\<^verbatim>\<open>id.Timepoint\<close>, \<^verbatim>\<open>id.EID\<close>).
\<close>

record ActivityID =
  Timepoint :: "64 word"
  EID :: string

text \<open>
  A bucket is the list of its key/value pairs in the order of its cursor (ascending keys).
  The trade-history bucket holds one nested bucket per pair; its cursor gives a nil value
  for a nested bucket.
\<close>

type_synonym bucket = "(bytes \<times> bytes) list"

datatype item = Val bytes | Nested bucket

record bolt =
  intermediateTx :: bucket
  pendingIntermediateTx :: bucket
  tradeHistory :: "(bytes \<times> item) list"

definition maxGetTradeHistory :: "64 word" where
  "maxGetTradeHistory = 3 * 86400000"

text \<open>\<^verbatim>\<open>Bucket.Put\<close>: the key gets the value, at its place in the order.\<close>

fun bucket_Put :: "bytes \<Rightarrow> bytes \<Rightarrow> bucket \<Rightarrow> bucket" where
  "bucket_Put key val [] = [(key, val)]"
| "bucket_Put key val ((k, v) # rest) =
     (if key = k then (key, val) # rest
      else if key < k then (key, val) # (k, v) # rest
      else (k, v) # bucket_Put key val rest)"

text \<open>\<^verbatim>\<open>Bucket.Delete\<close>: the key is gone; a key that is not there is no error.\<close>

definition bucket_Delete :: "bytes \<Rightarrow> bucket \<Rightarrow> bucket" where
  "bucket_Delete key b = filter (\<lambda>(k, v). k \<noteq> key) b"

definition bucket_Get :: "bytes \<Rightarrow> bucket \<Rightarrow> bytes option" where
  "bucket_Get key b = map_of b key"

text \<open>\<^verbatim>\<open>Cursor.Seek\<close>: the pairs from the first key that is not below the sought one.\<close>

definition cursor_Seek :: "bytes \<Rightarrow> bucket \<Rightarrow> bucket" where
  "cursor_Seek seek b = dropWhile (\<lambda>(k, v). k < seek) b"

text \<open>
  The engine's own failures are parameters of a call: \<open>None\<close> where the engine does its
  work. \<^verbatim>\<open>db.Update\<close> runs the function in a read-write transaction, rolls back when the
  function returns an error and commits otherwise; \<^verbatim>\<open>db.View\<close> runs it in a read-only
  transaction.
\<close>

record faults =
  begin_fault :: "error option"
  put_fault :: "error option"
  delete_fault :: "error option"
  commit_fault :: "error option"

definition no_faults :: faults where
  "no_faults = \<lparr>begin_fault = None, put_fault = None, delete_fault = None, commit_fault = None\<rparr>"

definition db_Update :: "faults \<Rightarrow> (bolt \<Rightarrow> error option \<times> bolt) \<Rightarrow> bolt \<Rightarrow> error option \<times> bolt"
where
  "db_Update fl fn db =
     (case begin_fault fl of
        Some e \<Rightarrow> (Some e, db)
      | None \<Rightarrow>
          (case fn db of
             (Some e, tx) \<Rightarrow> (Some e, db)
           | (None, tx) \<Rightarrow>
               (case commit_fault fl of
                  Some e \<Rightarrow> (Some e, db)
                | None \<Rightarrow> (None, tx))))"

definition db_View :: "faults \<Rightarrow> (bolt \<Rightarrow> error + 'a) \<Rightarrow> bolt \<Rightarrow> error + 'a" where
  "db_View fl fn db = (case begin_fault fl of Some e \<Rightarrow> Inl e | None \<Rightarrow> fn db)"

text \<open>
  \<^verbatim>\<open>StorePendingIntermediateTx\<close> (lines 85-101). \<^verbatim>\<open>json.Marshal\<close> of the entry and of
  the id, and \<^verbatim>\<open>id.ToBytes\<close> below, belong to package \<^verbatim>\<open>common\<close> and the JSON
  encoder: they are parameters. When the entry cannot be encoded the function returns
  \<^verbatim>\<open>err\<close>, the variable of the enclosing function, which is still nil at that moment
  (line 92), not \<^verbatim>\<open>uErr\<close>.
\<close>

definition StorePendingIntermediateTx ::
  "('tx \<Rightarrow> error + bytes) \<Rightarrow> (ActivityID \<Rightarrow> error + bytes) \<Rightarrow> faults
     \<Rightarrow> ActivityID \<Rightarrow> 'tx \<Rightarrow> bolt \<Rightarrow> error option \<times> bolt"
where
  "StorePendingIntermediateTx marshalTx marshalID fl ident data db =
     (let err = None in
      db_Update fl (\<lambda>tx.
        case marshalTx data of
          Inl uErr \<Rightarrow> (err, tx)
        | Inr dataJSON \<Rightarrow>
            (case marshalID ident of
               Inl uErr \<Rightarrow> (Some uErr, tx)
             | Inr idJSON \<Rightarrow>
                 (case put_fault fl of
                    Some e \<Rightarrow> (Some e, tx)
                  | None \<Rightarrow>
                      (None, tx\<lparr>pendingIntermediateTx :=
                                 bucket_Put idJSON dataJSON (pendingIntermediateTx tx)\<rparr>)))) db)"

text \<open>\<^verbatim>\<open>StoreIntermediateTx\<close> (lines 104-125).\<close>

definition StoreIntermediateTx ::
  "('tx \<Rightarrow> error + bytes) \<Rightarrow> (ActivityID \<Rightarrow> error + bytes) \<Rightarrow> (ActivityID \<Rightarrow> bytes) \<Rightarrow> faults
     \<Rightarrow> ActivityID \<Rightarrow> 'tx \<Rightarrow> bolt \<Rightarrow> error option \<times> bolt"
where
  "StoreIntermediateTx marshalTx marshalID ToBytes fl ident data db =
     db_Update fl (\<lambda>tx.
       case marshalTx data of
         Inl uErr \<Rightarrow> (Some uErr, tx)
       | Inr dataJSON \<Rightarrow>
           (let idByte = ToBytes ident in
            case put_fault fl of
              Some uErr \<Rightarrow> (Some uErr, tx)
            | None \<Rightarrow>
                (let tx1 = tx\<lparr>intermediateTx := bucket_Put idByte dataJSON (intermediateTx tx)\<rparr>
                 in case marshalID ident of
                      Inl uErr \<Rightarrow> (Some uErr, tx1)
                    | Inr idJSON \<Rightarrow>
                        (case delete_fault fl of
                           Some e \<Rightarrow> (Some e, tx1)
                         | None \<Rightarrow>
                             (None, tx1\<lparr>pendingIntermediateTx :=
                                          bucket_Delete idJSON (pendingIntermediateTx tx1)\<rparr>))))) db"

text \<open>Where an id is, as the two functions above key it.\<close>

definition in_pending :: "(ActivityID \<Rightarrow> error + bytes) \<Rightarrow> bolt \<Rightarrow> ActivityID \<Rightarrow> bool" where
  "in_pending marshalID db ident =
     (case marshalID ident of
        Inl e \<Rightarrow> False
      | Inr idJSON \<Rightarrow> bucket_Get idJSON (pendingIntermediateTx db) \<noteq> None)"

definition in_confirmed :: "(ActivityID \<Rightarrow> bytes) \<Rightarrow> bolt \<Rightarrow> ActivityID \<Rightarrow> bool" where
  "in_confirmed ToBytes db ident = (bucket_Get (ToBytes ident) (intermediateTx db) \<noteq> None)"

text \<open>\<^verbatim>\<open>strconv.FormatUint(x, 10)\<close>: the decimal digits, most significant first.\<close>

fun decimal :: "nat \<Rightarrow> string" where
  "decimal n =
     (if n < 10 then [char_of (48 + n)]
      else decimal (n div 10) @ [char_of (48 + n mod 10)])"

declare decimal.simps [simp del]

definition FormatUint :: "64 word \<Rightarrow> string" where
  "FormatUint x = decimal (unat x)"

text \<open>
  \<^verbatim>\<open>GetTradeHistory\<close> (lines 185-214). The inner loop (line 201) reads a pair's bucket
  from the sought key while the key is not above \<^verbatim>\<open>max\<close> (here \<open>max_key\<close>); the outer loop (line 197)
  visits the nested buckets until the cursor ends or meets a key with a value.
  \<^verbatim>\<open>json.Unmarshal\<close> and \<^verbatim>\<open>boltutil.BytesToUint64\<close> are parameters; the result, a Go
  map, is an association list.
\<close>

fun pair_scan :: "(bytes \<Rightarrow> error + 'h) \<Rightarrow> bytes \<Rightarrow> bucket \<Rightarrow> 'h list \<Rightarrow> error + 'h list" where
  "pair_scan unmarshal max_key [] pairsHistory = Inr pairsHistory"
| "pair_scan unmarshal max_key ((pairKey, history) # rest) pairsHistory =
     (if pairKey \<le> max_key then
        (case unmarshal history of
           Inl uErr \<Rightarrow> Inl uErr
         | Inr pairHistory \<Rightarrow> pair_scan unmarshal max_key rest (pairsHistory @ [pairHistory]))
      else Inr pairsHistory)"

fun history_scan ::
  "(bytes \<Rightarrow> error + 'h) \<Rightarrow> (bytes \<Rightarrow> 64 word) \<Rightarrow> bytes \<Rightarrow> bytes \<Rightarrow> (bytes \<times> item) list
     \<Rightarrow> (64 word \<times> 'h list) list \<Rightarrow> error + (64 word \<times> 'h list) list"
where
  "history_scan unmarshal BytesToUint64 min_key max_key [] exchangeHistory = Inr exchangeHistory"
| "history_scan unmarshal BytesToUint64 min_key max_key ((key, Val v) # rest) exchangeHistory =
     Inr exchangeHistory"
| "history_scan unmarshal BytesToUint64 min_key max_key ((key, Nested pairBk) # rest) exchangeHistory =
     (case pair_scan unmarshal max_key (cursor_Seek min_key pairBk) [] of
        Inl uErr \<Rightarrow> Inl uErr
      | Inr pairsHistory \<Rightarrow>
          history_scan unmarshal BytesToUint64 min_key max_key rest
            (AList.update (BytesToUint64 key) pairsHistory exchangeHistory))"

definition GetTradeHistory ::
  "(bytes \<Rightarrow> error + 'h) \<Rightarrow> (bytes \<Rightarrow> 64 word) \<Rightarrow> faults \<Rightarrow> bolt \<Rightarrow> 64 word \<Rightarrow> 64 word
     \<Rightarrow> (64 word \<times> 'h list) list \<times> error option"
where
  "GetTradeHistory unmarshal BytesToUint64 fl db fromTime toTime =
     (let result = [] in
      if toTime - fromTime > maxGetTradeHistory then (result, Some ErrRangeTooBroad)
      else
        let min_key = FormatUint fromTime; max_key = FormatUint toTime in
        case db_View fl (\<lambda>tx.
               history_scan unmarshal BytesToUint64 min_key max_key (tradeHistory tx) []) db of
          Inl err \<Rightarrow> (result, Some err)
        | Inr exchangeHistory \<Rightarrow> (exchangeHistory, None))"

text \<open>
  A store without entries, and an encoding of ids for the examples below: any two
  functions can stand for \<^verbatim>\<open>json.Marshal\<close> and \<^verbatim>\<open>ToBytes\<close>.
\<close>

definition empty_bolt :: bolt where
  "empty_bolt = \<lparr>intermediateTx = [], pendingIntermediateTx = [], tradeHistory = []\<rparr>"

definition demo_marshalID :: "ActivityID \<Rightarrow> error + bytes" where
  "demo_marshalID ident = Inr (''json:'' @ EID ident)"

definition demo_ToBytes :: "ActivityID \<Rightarrow> bytes" where
  "demo_ToBytes ident = ''bytes:'' @ EID ident"

section \<open>PostgreSQL storage (package storage)\<close>

datatype fetchDataType =
  priceDataType | rateDataType | authDataType | goldDataType | btcDataType | usdDataType

text \<open>
  Modelled from the spec: \<^verbatim>\<open>common.MillisToTime\<close> is not among the sources. The spec has
  "time comparisons use millisecond epoch values", so a time is the number of
  milliseconds since the epoch.
\<close>

definition MillisToTime :: "64 word \<Rightarrow> int" where
  "MillisToTime m = uint m"

text \<open>
  The two tables of the schema (lines 30-49), each with the sequence behind its
  \<^verbatim>\<open>SERIAL\<close> column. A table is the list of its rows in the order in which the engine
  scans them. Neither table has a constraint besides the primary key \<^verbatim>\<open>id\<close>:
  \<^verbatim>\<open>activity_idx\<close> on \<^verbatim>\<open>(timepoint, eid)\<close> is an ordinary index, not a unique one.
\<close>

record fetch_data_row =
  fd_id :: int
  fd_created :: int
  fd_data :: bytes
  fd_type :: fetchDataType

record activity_row =
  act_id :: int
  act_timepoint :: "64 word"
  act_eid :: string
  act_created :: int
  act_is_pending :: bool
  act_data :: bytes

record postgres =
  fetch_data :: "fetch_data_row list"
  fetch_data_id_seq :: int
  activity :: "activity_row list"
  activity_id_seq :: int

definition empty_postgres :: postgres where
  "empty_postgres = \<lparr>fetch_data = [], fetch_data_id_seq = 1, activity = [], activity_id_seq = 1\<rparr>"

text \<open>
  A call to the driver either fails by itself (connection, I/O: the parameter \<open>fault\<close>)
  or gives the rows. \<^verbatim>\<open>sqlx.Get\<close> takes the first row and fails with
  \<^verbatim>\<open>sql.ErrNoRows\<close> when there is none.
\<close>

definition db_Get :: "error option \<Rightarrow> 'a list \<Rightarrow> error + 'a" where
  "db_Get fault rows =
     (case fault of
        Some err \<Rightarrow> Inl err
      | None \<Rightarrow> (case rows of [] \<Rightarrow> Inl ErrNoRows | r # _ \<Rightarrow> Inr r))"

text \<open>
  The value handed to \<^verbatim>\<open>storeFetchData\<close> with its dynamic type; \<^verbatim>\<open>getDataType\<close>
  (lines 89-105) panics on any other type.
\<close>

datatype 'a fetched =
    AuthDataSnapshot 'a | BTCData 'a | GoldData 'a | USDData 'a
  | AllPriceEntry 'a | AllRateEntry 'a | OtherType 'a

fun getDataType :: "'a fetched \<Rightarrow> error + fetchDataType" where
  "getDataType (AuthDataSnapshot d) = Inr authDataType"
| "getDataType (BTCData d) = Inr btcDataType"
| "getDataType (GoldData d) = Inr goldDataType"
| "getDataType (USDData d) = Inr usdDataType"
| "getDataType (AllPriceEntry d) = Inr priceDataType"
| "getDataType (AllRateEntry d) = Inr rateDataType"
| "getDataType (OtherType d) = Inl (Panic ''unexpected data type'')"

text \<open>\<^verbatim>\<open>storeFetchData\<close> (lines 107-119): one \<^verbatim>\<open>INSERT\<close>; the sequence gives the id.\<close>

definition storeFetchData ::
  "('a fetched \<Rightarrow> error + bytes) \<Rightarrow> error option \<Rightarrow> 'a fetched \<Rightarrow> 64 word \<Rightarrow> postgres
     \<Rightarrow> error option \<times> postgres"
where
  "storeFetchData marshal fault d timepoint db =
     (let timestamp = MillisToTime timepoint in
      case marshal d of
        Inl err \<Rightarrow> (Some err, db)
      | Inr dataJSON \<Rightarrow>
          (case getDataType d of
             Inl p \<Rightarrow> (Some p, db)
           | Inr dataType \<Rightarrow>
               (case fault of
                  Some err \<Rightarrow> (Some err, db)
                | None \<Rightarrow>
                    (None, db\<lparr>fetch_data := fetch_data db @
                                 [\<lparr>fd_id = fetch_data_id_seq db, fd_created = timestamp,
                                   fd_data = dataJSON, fd_type = dataType\<rparr>],
                               fetch_data_id_seq := fetch_data_id_seq db + 1\<rparr>))))"

text \<open>
  \<^verbatim>\<open>currentVersion\<close> (lines 121-136):
  \<^verbatim>\<open>SELECT id ... WHERE created <= $1 and type = $2 ORDER BY created DESC LIMIT 1\<close>.
  The rows that qualify (\<open>qualifies\<close> is the \<^verbatim>\<open>WHERE\<close> clause, with
  \<^verbatim>\<open>$1 = MillisToTime(timepoint)\<close>) are sorted by \<^verbatim>\<open>created\<close>, greatest first, and the first one is
  taken. (Among rows with the same \<^verbatim>\<open>created\<close> the engine is free; here the sort is
  stable on the table's order.) The version is the id of that row.
\<close>

definition qualifies :: "fetchDataType \<Rightarrow> 64 word \<Rightarrow> fetch_data_row \<Rightarrow> bool" where
  "qualifies dataType timepoint r \<longleftrightarrow>
     fd_created r \<le> MillisToTime timepoint \<and> fd_type r = dataType"

definition currentVersion :: "error option \<Rightarrow> fetchDataType \<Rightarrow> 64 word \<Rightarrow> postgres \<Rightarrow> error + int"
where
  "currentVersion fault dataType timepoint db =
     (let rows = rev (sort_key fd_created (filter (qualifies dataType timepoint) (fetch_data db)))
      in case db_Get fault (map fd_id rows) of
           Inl err \<Rightarrow> if err = ErrNoRows then Inl (ErrNoVersion timepoint) else Inl err
         | Inr ident \<Rightarrow> Inr ident)"

text \<open>
  \<^verbatim>\<open>common.ActivityRecord\<close> as \<^verbatim>\<open>Record\<close> (lines 431-440) fills it. Modelled from the
  spec: \<^verbatim>\<open>common.NewActivityRecord\<close> is not among the sources; it makes the record of its
  eight arguments ("ActivityRecord: {id, action, destination, params, result,
  exchangeStatus, miningStatus, ...}"). The types of the parameters and of the result of an
  activity, the method \<^verbatim>\<open>IsPending\<close> and the JSON encoding of a record are parameters.
\<close>

record ('p, 'r) ActivityRecord =
  Action :: string
  ID :: ActivityID
  Destination :: string
  Params :: 'p
  Result :: 'r
  ExchangeStatus :: string
  MiningStatus :: string
  Timestamp :: string

definition NewActivityRecord ::
  "string \<Rightarrow> ActivityID \<Rightarrow> string \<Rightarrow> 'p \<Rightarrow> 'r \<Rightarrow> string \<Rightarrow> string \<Rightarrow> string \<Rightarrow> ('p, 'r) ActivityRecord"
where
  "NewActivityRecord action ident destination params result exStatus miStatus timestamp =
     \<lparr>Action = action, ID = ident, Destination = destination, Params = params, Result = result,
      ExchangeStatus = exStatus, MiningStatus = miStatus, Timestamp = timestamp\<rparr>"

text \<open>The rows of \<^verbatim>\<open>WHERE timepoint = $1 AND eid = $2\<close>.\<close>

definition has_id :: "ActivityID \<Rightarrow> activity_row \<Rightarrow> bool" where
  "has_id ident r \<longleftrightarrow> act_timepoint r = Timepoint ident \<and> act_eid r = EID ident"

text \<open>\<^verbatim>\<open>SET is_pending = false, data = $2\<close> on a row with the id.\<close>

definition settle :: "ActivityID \<Rightarrow> bytes \<Rightarrow> activity_row \<Rightarrow> activity_row" where
  "settle ident dataBytes r =
     (if has_id ident r then r\<lparr>act_is_pending := False, act_data := dataBytes\<rparr> else r)"

text \<open>\<^verbatim>\<open>Record\<close> (lines 428-451): one \<^verbatim>\<open>INSERT\<close>, with \<^verbatim>\<open>is_pending\<close> true.\<close>

definition Record ::
  "(('p, 'r) ActivityRecord \<Rightarrow> error + bytes) \<Rightarrow> error option \<Rightarrow> string \<Rightarrow> ActivityID \<Rightarrow> string
     \<Rightarrow> 'p \<Rightarrow> 'r \<Rightarrow> string \<Rightarrow> string \<Rightarrow> 64 word \<Rightarrow> postgres \<Rightarrow> error option \<times> postgres"
where
  "Record marshal fault action ident destination params result estatus mstatus timepoint db =
     (let record = NewActivityRecord action ident destination params result estatus mstatus
                     (FormatUint timepoint);
          timestamp = MillisToTime timepoint
      in case marshal record of
           Inl err \<Rightarrow> (Some err, db)
         | Inr d \<Rightarrow>
             (case fault of
                Some err \<Rightarrow> (Some err, db)
              | None \<Rightarrow>
                  (None, db\<lparr>activity := activity db @
                               [\<lparr>act_id = activity_id_seq db, act_timepoint = Timepoint ident,
                                 act_eid = EID ident, act_created = timestamp,
                                 act_is_pending = True, act_data = d\<rparr>],
                             activity_id_seq := activity_id_seq db + 1\<rparr>)))"

text \<open>
  \<^verbatim>\<open>UpdateActivity\<close> (lines 352-376): a \<^verbatim>\<open>SELECT\<close> of the rows with the id, then the
  encoding of the record, then, when the record is not pending, an \<^verbatim>\<open>UPDATE\<close> of every
  row with the id.
\<close>

definition UpdateActivity ::
  "(('p, 'r) ActivityRecord \<Rightarrow> bool) \<Rightarrow> (('p, 'r) ActivityRecord \<Rightarrow> error + bytes)
     \<Rightarrow> error option \<Rightarrow> error option \<Rightarrow> ActivityID \<Rightarrow> ('p, 'r) ActivityRecord \<Rightarrow> postgres
     \<Rightarrow> error option \<times> postgres"
where
  "UpdateActivity IsPending marshal get_fault exec_fault ident act db =
     (case db_Get get_fault (map act_data (filter (has_id ident) (activity db))) of
        Inl err \<Rightarrow> if err = ErrNoRows then (None, db) else (Some err, db)
      | Inr d \<Rightarrow>
          (case marshal act of
             Inl err \<Rightarrow> (Some err, db)
           | Inr dataBytes \<Rightarrow>
               if \<not> IsPending act then
                 (case exec_fault of
                    Some err \<Rightarrow> (Some err, db)
                  | None \<Rightarrow>
                      (None, db\<lparr>activity := map (settle ident dataBytes) (activity db)\<rparr>))
               else (None, db)))"

text \<open>
  \<^verbatim>\<open>ExportExpiredAuthData\<close> (lines 202-247). The failures of the calls to the file system
  and to the driver are parameters: of \<^verbatim>\<open>os.Create\<close>, of \<^verbatim>\<open>db.Query\<close>, of
  \<^verbatim>\<open>rows.Scan\<close> for the n-th row, and of the n-th call of \<^verbatim>\<open>outFile.Write\<close> (two calls
  per row, counted from 0). The file is the list of the slices written to it; a call that
  fails writes nothing. \<^verbatim>\<open>authDataExpiredDuration\<close> is a constant of the package that is
  not among the sources: a parameter.
\<close>

record export_faults =
  create_fault :: "error option"
  query_fault :: "error option"
  scan_fault :: "nat \<Rightarrow> error option"
  write_fault :: "nat \<Rightarrow> error option"

fun export_rows ::
  "export_faults \<Rightarrow> bytes list \<Rightarrow> nat \<Rightarrow> bytes list \<Rightarrow> 64 word \<Rightarrow> 64 word \<times> error option \<times> bytes list"
where
  "export_rows fl [] n outFile count = (count, None, outFile)"
| "export_rows fl (d # rest) n outFile count =
     (case scan_fault fl n of
        Some err \<Rightarrow> (0, Some err, outFile)
      | None \<Rightarrow>
          (let outFile1 = (case write_fault fl (2 * n) of
                             Some ignored \<Rightarrow> outFile
                           | None \<Rightarrow> outFile @ [d])
           in case write_fault fl (2 * n + 1) of
                Some err \<Rightarrow> (0, Some err, outFile1)
              | None \<Rightarrow> export_rows fl rest (n + 1) (outFile1 @ [[CHR 0x0A]]) (count + 1)))"

definition ExportExpiredAuthData ::
  "64 word \<Rightarrow> export_faults \<Rightarrow> 64 word \<Rightarrow> postgres \<Rightarrow> 64 word \<times> error option \<times> bytes list"
where
  "ExportExpiredAuthData authDataExpiredDuration fl timepoint db =
     (case create_fault fl of
        Some err \<Rightarrow> (0, Some err, [])
      | None \<Rightarrow>
          (let timepointExpireData = timepoint - authDataExpiredDuration;
               timestampExpire = MillisToTime timepointExpireData
           in case query_fault fl of
                Some err \<Rightarrow> if err = ErrNoRows then (0, None, []) else (0, Some err, [])
              | None \<Rightarrow>
                  export_rows fl
                    (map fd_data (filter (\<lambda>r. fd_type r = authDataType \<and> fd_created r < timestampExpire)
                       (fetch_data db))) 0 [] 0))"

section \<open>Sequences of operations on the two buckets\<close>

text \<open>
  A call of \<^verbatim>\<open>StorePendingIntermediateTx\<close> or of \<^verbatim>\<open>StoreIntermediateTx\<close>, with the
  failures of the engine during it; the store after one call and after a sequence of
  calls, whatever each call returns.
\<close>

datatype 'tx op = StorePending faults ActivityID 'tx | Promote faults ActivityID 'tx

fun apply_op ::
  "('tx \<Rightarrow> error + bytes) \<Rightarrow> (ActivityID \<Rightarrow> error + bytes) \<Rightarrow> (ActivityID \<Rightarrow> bytes)
     \<Rightarrow> 'tx op \<Rightarrow> bolt \<Rightarrow> bolt"
where
  "apply_op marshalTx marshalID ToBytes (StorePending fl ident data) db =
     snd (StorePendingIntermediateTx marshalTx marshalID fl ident data db)"
| "apply_op marshalTx marshalID ToBytes (Promote fl ident data) db =
     snd (StoreIntermediateTx marshalTx marshalID ToBytes fl ident data db)"

fun run_ops ::
  "('tx \<Rightarrow> error + bytes) \<Rightarrow> (ActivityID \<Rightarrow> error + bytes) \<Rightarrow> (ActivityID \<Rightarrow> bytes)
     \<Rightarrow> 'tx op list \<Rightarrow> bolt \<Rightarrow> bolt"
where
  "run_ops marshalTx marshalID ToBytes [] db = db"
| "run_ops marshalTx marshalID ToBytes (x # rest) db =
     run_ops marshalTx marshalID ToBytes rest (apply_op marshalTx marshalID ToBytes x db)"

text \<open>
  A sequence without resubmission: whenever it stores an id as pending, that id is not in
  the confirmed bucket at that moment.
\<close>

fun no_resubmission ::
  "('tx \<Rightarrow> error + bytes) \<Rightarrow> (ActivityID \<Rightarrow> error + bytes) \<Rightarrow> (ActivityID \<Rightarrow> bytes)
     \<Rightarrow> 'tx op list \<Rightarrow> bolt \<Rightarrow> bool"
where
  "no_resubmission marshalTx marshalID ToBytes [] db = True"
| "no_resubmission marshalTx marshalID ToBytes (StorePending fl ident data # rest) db =
     (\<not> in_confirmed ToBytes db ident \<and>
      no_resubmission marshalTx marshalID ToBytes rest
        (apply_op marshalTx marshalID ToBytes (StorePending fl ident data) db))"
| "no_resubmission marshalTx marshalID ToBytes (Promote fl ident data # rest) db =
     no_resubmission marshalTx marshalID ToBytes rest
       (apply_op marshalTx marshalID ToBytes (Promote fl ident data) db)"

text \<open>
  Two encodings of ids that lose nothing, for the examples: the 64 bits of the timepoint,
  then the \<^verbatim>\<open>EID\<close>.
\<close>

definition bit_char :: "bool \<Rightarrow> char" where
  "bit_char b = (if b then CHR ''1'' else CHR ''0'')"

definition key_of :: "ActivityID \<Rightarrow> bytes" where
  "key_of ident = map (\<lambda>n. bit_char (bit (Timepoint ident) n)) [0..<64] @ EID ident"

definition full_marshalID :: "ActivityID \<Rightarrow> error + bytes" where
  "full_marshalID ident = Inr (''json:'' @ key_of ident)"

definition full_ToBytes :: "ActivityID \<Rightarrow> bytes" where
  "full_ToBytes ident = ''bytes:'' @ key_of ident"

section \<open>The spec's reading of a version, and data for the examples\<close>

text \<open>
  The spec's words for \<^verbatim>\<open>CurrentVersion\<close>: "the greatest version id for category with
  created <= timestamp", NotFound when there is none.
\<close>

definition spec_CurrentVersion :: "fetchDataType \<Rightarrow> 64 word \<Rightarrow> postgres \<Rightarrow> error + int" where
  "spec_CurrentVersion dataType timepoint db =
     (let ids = map fd_id (filter (qualifies dataType timepoint) (fetch_data db))
      in if ids = [] then Inl (ErrNoVersion timepoint) else Inr (Max (set ids)))"

text \<open>Encodings for the examples: a payload that is its own JSON text.\<close>

fun demo_marshal :: "bytes fetched \<Rightarrow> error + bytes" where
  "demo_marshal (AuthDataSnapshot d) = Inr d"
| "demo_marshal (BTCData d) = Inr d"
| "demo_marshal (GoldData d) = Inr d"
| "demo_marshal (USDData d) = Inr d"
| "demo_marshal (AllPriceEntry d) = Inr d"
| "demo_marshal (AllRateEntry d) = Inr d"
| "demo_marshal (OtherType d) = Inr d"

definition demo_IsPending :: "(unit, unit) ActivityRecord \<Rightarrow> bool" where
  "demo_IsPending act \<longleftrightarrow> MiningStatus act = [] \<or> MiningStatus act = ''submitted''"

definition demo_marshalActivity :: "(unit, unit) ActivityRecord \<Rightarrow> error + bytes" where
  "demo_marshalActivity act = Inr (Action act @ '':'' @ EID (ID act) @ '':'' @ MiningStatus act)"

definition dep_1 :: ActivityID where
  "dep_1 = \<lparr>Timepoint = 500, EID = ''dep-1''\<rparr>"

text \<open>Price snapshots stored at 10, 20 and 30; and one stored at 20 followed by one at 10.\<close>

definition three_snapshots :: postgres where
  "three_snapshots =
     snd (storeFetchData demo_marshal None (AllPriceEntry ''c'') 30
       (snd (storeFetchData demo_marshal None (AllPriceEntry ''b'') 20
         (snd (storeFetchData demo_marshal None (AllPriceEntry ''a'') 10 empty_postgres)))))"

definition late_snapshot :: postgres where
  "late_snapshot =
     snd (storeFetchData demo_marshal None (AllPriceEntry ''b'') 10
       (snd (storeFetchData demo_marshal None (AllPriceEntry ''a'') 20 empty_postgres)))"

text \<open>An auth snapshot stored at 1000; a sink whose first write fails.\<close>

definition one_auth_snapshot :: postgres where
  "one_auth_snapshot =
     snd (storeFetchData demo_marshal None (AuthDataSnapshot ''auth'') 1000 empty_postgres)"

definition full_disk :: export_faults where
  "full_disk = \<lparr>create_fault = None, query_fault = None, scan_fault = (\<lambda>n. None),
     write_fault = (\<lambda>n. if n = 0 then Some (ErrFile ''no space left on device'') else None)\<rparr>"

text \<open>The same deposit recorded twice.\<close>

definition recorded_twice :: "error option \<times> postgres" where
  "recorded_twice =
     Record demo_marshalActivity None ''deposit'' dep_1 ''binance'' () () [] [] 500
       (snd (Record demo_marshalActivity None ''deposit'' dep_1 ''binance'' () () [] [] 500
          empty_postgres))"

text \<open>One deposit, pending, in the ledger; and its record once settled.\<close>

definition one_pending :: postgres where
  "one_pending =
     snd (Record demo_marshalActivity None ''deposit'' dep_1 ''binance'' () () [] [] 500
            empty_postgres)"

definition settled_dep_1 :: "(unit, unit) ActivityRecord" where
  "settled_dep_1 = NewActivityRecord ''deposit'' dep_1 ''binance'' () () ''done'' ''mined'' ''500''"

definition pending_dep_1 :: "(unit, unit) ActivityRecord" where
  "pending_dep_1 = NewActivityRecord ''deposit'' dep_1 ''binance'' () () [] ''submitted'' ''500''"

text \<open>An id stored as pending, promoted, and stored as pending again.\<close>

definition promoted :: bolt where
  "promoted =
     snd (StoreIntermediateTx Inr demo_marshalID demo_ToBytes no_faults dep_1 ''tx''
       (snd (StorePendingIntermediateTx Inr demo_marshalID no_faults dep_1 ''tx'' empty_bolt)))"

definition resubmitted :: bolt where
  "resubmitted = snd (StorePendingIntermediateTx Inr demo_marshalID no_faults dep_1 ''tx'' promoted)"

text \<open>A trade-history bucket with one pair and three trades.\<close>

definition demo_history :: bolt where
  "demo_history = \<lparr>intermediateTx = [], pendingIntermediateTx = [],
     tradeHistory =
       [(''pair-1'', Nested [(''1000a'', ''t1''), (''2000b'', ''t2''), (''4000c'', ''t3'')])]\<rparr>"

text \<open>
  A second deposit; the first one stored and promoted, the second one stored and its
  promotion failing at \<^verbatim>\<open>Delete\<close>.
\<close>

definition dep_2 :: ActivityID where
  "dep_2 = \<lparr>Timepoint = 600, EID = ''dep-2''\<rparr>"

definition demo_ops :: "bytes op list" where
  "demo_ops =
     [StorePending no_faults dep_1 ''tx'', Promote no_faults dep_1 ''tx'',
      StorePending no_faults dep_2 ''tx'',
      Promote (no_faults\<lparr>delete_fault := Some (ErrBolt ''tx not writable'')\<rparr>) dep_2 ''tx'']"

text \<open>An encoder that refuses every record.\<close>

definition failing_marshalActivity :: "(unit, unit) ActivityRecord \<Rightarrow> error + bytes" where
  "failing_marshalActivity act = Inl (ErrJSON ''unsupported value'')"

section \<open>Properties of the rebroadcaster\<close>

lemma update_fresh_key:
  "k \<notin> fst ` set al \<Longrightarrow> AList.update k v al = al @ [(k, v)]"
  by (induction al) auto

lemma refusals_key_in: "(k, e) \<in> set (refusals send tx cs) \<Longrightarrow> k \<in> fst ` set cs"
  by (induction cs) (force split: option.splits)+

lemma refusals_keys: "fst ` set (refusals send tx cs) \<subseteq> fst ` set cs"
  using refusals_key_in by fastforce

lemma refusals_length: "length (refusals send tx cs) \<le> length cs"
  by (induction cs) (auto split: option.splits)

lemma refusals_all:
  "length (refusals send tx cs) = length cs \<longleftrightarrow> (\<forall>(i, c) \<in> set cs. send c tx \<noteq> None)"
proof (induction cs)
  case Nil
  show ?case by simp
next
  case (Cons p cs)
  obtain i c where p: "p = (i, c)" by (cases p)
  have "length (refusals send tx cs) \<le> length cs" by (rule refusals_length)
  with Cons p show ?case by (auto split: option.splits)
qed

lemma broadcast_all_state:
  "distinct (map fst cs) \<Longrightarrow> fst ` set (failures s) \<inter> fst ` set cs = {} \<Longrightarrow>
   failures (broadcast_all send tx cs s) = failures s @ refusals send tx cs \<and>
   wg (broadcast_all send tx cs s) = wg s"
proof (induction cs arbitrary: s)
  case Nil
  show ?case by simp
next
  case (Cons p cs)
  obtain i c where p: "p = (i, c)" by (cases p)
  let ?s = "broadcast send i c tx (s\<lparr>wg := wg s + 1\<rparr>)"
  from Cons.prems p have fresh: "i \<notin> fst ` set (failures s)" by auto
  have f: "failures ?s = failures s @ refusals send tx [(i, c)]"
    using fresh by (simp add: broadcast_def Let_def update_fresh_key split: option.splits)
  have w: "wg ?s = wg s"
    by (simp add: broadcast_def Let_def split: option.splits)
  have "fst ` set (failures ?s) \<subseteq> insert i (fst ` set (failures s))"
    unfolding f by (auto split: option.splits)
  moreover from Cons.prems p have "i \<notin> fst ` set cs"
    and "fst ` set (failures s) \<inter> fst ` set cs = {}" by auto
  ultimately have disj: "fst ` set (failures ?s) \<inter> fst ` set cs = {}"
    by blast
  from Cons.prems have "distinct (map fst cs)" by simp
  from Cons.IH [OF this disj] f w p show ?case
    by (simp split: option.splits)
qed

lemma fold_update_distinct:
  "distinct (map fst al) \<Longrightarrow> fst ` set r \<inter> fst ` set al = {} \<Longrightarrow>
   fold (\<lambda>(key, val) r. AList.update key val r) al r = r @ al"
proof (induction al arbitrary: r)
  case Nil
  show ?case by simp
next
  case (Cons p al)
  obtain k v where p: "p = (k, v)" by (cases p)
  from Cons.prems p have "k \<notin> fst ` set r" by auto
  then have u: "AList.update k v r = r @ [(k, v)]" by (rule update_fresh_key)
  from Cons.prems p have d: "distinct (map fst al)"
    and "fst ` set (r @ [(k, v)]) \<inter> fst ` set al = {}" by auto
  from Cons.IH [OF this] p u show ?case by simp
qed

lemma refusals_distinct:
  "distinct (map fst cs) \<Longrightarrow> distinct (map fst (refusals send tx cs))"
proof (induction cs)
  case Nil
  show ?case by simp
next
  case (Cons p cs)
  obtain i c where p: "p = (i, c)" by (cases p)
  have "fst ` set (refusals send tx cs) \<subseteq> fst ` set cs" by (rule refusals_keys)
  with Cons p show ?case by (auto split: option.splits)
qed

lemma Broadcast_eq:
  assumes "distinct (map fst clients)"
  shows "Broadcast send clients tx =
           Some (refusals send tx clients,
                 length (refusals send tx clients) \<noteq> length clients \<and> length clients > 0)"
proof -
  let ?s = "broadcast_all send tx clients \<lparr>failures = [], wg = 0, events = []\<rparr>"
  have s: "failures ?s = refusals send tx clients \<and> wg ?s = 0"
    using broadcast_all_state [OF assms, of "\<lparr>failures = [], wg = 0, events = []\<rparr>" send tx]
    by simp
  have "fold (\<lambda>(key, val) r. AList.update key val r) (refusals send tx clients) []
          = refusals send tx clients"
    using fold_update_distinct [OF refusals_distinct [OF assms], of "[]" send tx] by simp
  with s show ?thesis by (simp add: Broadcast_def Let_def)
qed

text \<open>
  C1. The claim: the boolean of \<^verbatim>\<open>Broadcast\<close> is true exactly when a node accepted and a
  node refused. The source computes \<^verbatim>\<open>len(result) != len(self.clients) && len(self.clients) > 0\<close>,
  which is true as soon as one node accepted, as the comment on the type says ("a bool
  indicating that the tx is broadcasted to at least 1 node"). With three nodes that all
  accept, the failures are empty and the boolean is true, where the claim has false.
\<close>

theorem Broadcast_all_accept_counterexample:
  "Broadcast (\<lambda>c tx. None) [(''A'', ()), (''B'', ()), (''C'', ())] () = Some ([], True)"
  by (simp add: Broadcast_def Let_def broadcast_def)

text \<open>
  C1, amended. For a node set with each name once, \<^verbatim>\<open>Broadcast\<close> returns; the failures are
  the refusing nodes with their errors; and the boolean is true exactly when at least one
  node accepted. So it is false when every node refuses and when there is no node, and
  true when every node of a non-empty set accepts.
\<close>

theorem Broadcast_partialSuccess:
  assumes "distinct (map fst clients)"
  shows "\<exists>result ok. Broadcast send clients tx = Some (result, ok) \<and>
           result = refusals send tx clients \<and>
           (ok \<longleftrightarrow> (\<exists>(i, c) \<in> set clients. send c tx = None))"
proof -
  have "length (refusals send tx clients) \<noteq> length clients \<longleftrightarrow>
          (\<exists>(i, c) \<in> set clients. send c tx = None)"
    using refusals_all [of send tx clients] by auto
  moreover have "(\<exists>(i, c) \<in> set clients. send c tx = None) \<Longrightarrow> length clients > 0"
    by auto
  ultimately show ?thesis
    unfolding Broadcast_eq [OF assms] by blast
qed

theorem Broadcast_partialSuccess_witness:
  "distinct (map fst [(''A'', True), (''B'', False), (''C'', False)]) \<and>
   (\<exists>result ok.
      Broadcast (\<lambda>c tx. if c then None else Some (ErrNode ''timeout''))
        [(''A'', True), (''B'', False), (''C'', False)] () = Some (result, ok) \<and>
      result = [(''B'', ErrNode ''timeout''), (''C'', ErrNode ''timeout'')] \<and> ok)"
proof -
  have d: "distinct (map fst [(''A'', True), (''B'', False), (''C'', False)])" by simp
  show ?thesis
    using d Broadcast_partialSuccess [OF d,
        of "\<lambda>c tx. if c then None else Some (ErrNode ''timeout'')" "()"]
    by simp
qed

lemma broadcast_all_events:
  "events (broadcast_all send tx cs s) =
     events s @ concat (map (\<lambda>(i, c). [Submit i, Done i]) cs)"
proof (induction cs arbitrary: s)
  case Nil
  show ?case by simp
next
  case (Cons p cs)
  obtain i c where p: "p = (i, c)" by (cases p)
  have "events (broadcast send i c tx (s\<lparr>wg := wg s + 1\<rparr>)) = events s @ [Submit i, Done i]"
    by (simp add: broadcast_def Let_def split: option.splits)
  with Cons.IH p show ?case by simp
qed

text \<open>
  C9. The claim: \<^verbatim>\<open>Broadcast\<close> submits to every node concurrently and returns after
  all submissions have finished. The source has the wait group and the concurrent map of
  a fan-out, but line 37 calls \<^verbatim>\<open>self.broadcast\<close> without \<^verbatim>\<open>go\<close>: the submission to a
  node begins when the one before it has returned. For every node set the calls are one
  after the other, in the order of the visit, and all have returned when \<^verbatim>\<open>Broadcast\<close>
  does.
\<close>

theorem Broadcast_sequential:
  "Broadcast_events send clients tx = concat (map (\<lambda>(i, c). [Submit i, Done i]) clients)"
  by (simp add: Broadcast_events_def broadcast_all_events)

section \<open>Properties of the bolt storage\<close>

lemma map_of_bucket_Put: "map_of (bucket_Put key val b) = (map_of b)(key \<mapsto> val)"
  by (induction b) (auto simp: fun_eq_iff)

lemma map_of_bucket_Delete: "map_of (bucket_Delete key b) = (map_of b)(key := None)"
  by (induction b) (auto simp: bucket_Delete_def fun_eq_iff)

lemma bucket_Get_Put:
  "bucket_Get k (bucket_Put key val b) = (if k = key then Some val else bucket_Get k b)"
  by (simp add: bucket_Get_def map_of_bucket_Put)

lemma bucket_Get_Delete:
  "bucket_Get k (bucket_Delete key b) = (if k = key then None else bucket_Get k b)"
  by (simp add: bucket_Get_def map_of_bucket_Delete)

lemma db_Update_error: "db_Update fl fn db = (Some e, db') \<Longrightarrow> db' = db"
  by (auto simp: db_Update_def split: option.splits prod.splits)

lemma db_Update_ok: "db_Update fl fn db = (None, db') \<Longrightarrow> fn db = (None, db')"
  by (auto simp: db_Update_def split: option.splits prod.splits)

lemma StorePendingIntermediateTx_confirmed:
  "StorePendingIntermediateTx marshalTx marshalID fl ident data db = (err, db') \<Longrightarrow>
   intermediateTx db' = intermediateTx db"
  by (auto simp: StorePendingIntermediateTx_def db_Update_def Let_def
      split: option.splits sum.splits prod.splits)

lemma promoted_eq:
  "promoted = \<lparr>intermediateTx = [(''bytes:dep-1'', ''tx'')], pendingIntermediateTx = [],
               tradeHistory = []\<rparr>"
  by (simp add: promoted_def StorePendingIntermediateTx_def StoreIntermediateTx_def db_Update_def
      no_faults_def demo_marshalID_def demo_ToBytes_def empty_bolt_def dep_1_def
      bucket_Delete_def Let_def)

lemma resubmitted_eq:
  "resubmitted = \<lparr>intermediateTx = [(''bytes:dep-1'', ''tx'')],
                  pendingIntermediateTx = [(''json:dep-1'', ''tx'')], tradeHistory = []\<rparr>"
  by (simp add: resubmitted_def promoted_eq StorePendingIntermediateTx_def db_Update_def
      no_faults_def demo_marshalID_def dep_1_def Let_def)

lemma StoreIntermediateTx_all_or_nothing:
  assumes "StoreIntermediateTx marshalTx marshalID ToBytes fl ident data db = (err, db')"
  shows "(err = None \<longrightarrow>
            (\<exists>dataJSON idJSON. marshalTx data = Inr dataJSON \<and> marshalID ident = Inr idJSON \<and>
               intermediateTx db' = bucket_Put (ToBytes ident) dataJSON (intermediateTx db) \<and>
               pendingIntermediateTx db' = bucket_Delete idJSON (pendingIntermediateTx db) \<and>
               tradeHistory db' = tradeHistory db \<and>
               bucket_Get (ToBytes ident) (intermediateTx db') = Some dataJSON \<and>
               bucket_Get idJSON (pendingIntermediateTx db') = None) \<and>
            in_confirmed ToBytes db' ident \<and> \<not> in_pending marshalID db' ident) \<and>
         (err \<noteq> None \<longrightarrow> db' = db)"
proof (cases err)
  case None
  with assms have "db_Update fl (\<lambda>tx.
       case marshalTx data of
         Inl uErr \<Rightarrow> (Some uErr, tx)
       | Inr dataJSON \<Rightarrow>
           (let idByte = ToBytes ident in
            case put_fault fl of
              Some uErr \<Rightarrow> (Some uErr, tx)
            | None \<Rightarrow>
                (let tx1 = tx\<lparr>intermediateTx := bucket_Put idByte dataJSON (intermediateTx tx)\<rparr>
                 in case marshalID ident of
                      Inl uErr \<Rightarrow> (Some uErr, tx1)
                    | Inr idJSON \<Rightarrow>
                        (case delete_fault fl of
                           Some e \<Rightarrow> (Some e, tx1)
                         | None \<Rightarrow>
                             (None, tx1\<lparr>pendingIntermediateTx :=
                                          bucket_Delete idJSON (pendingIntermediateTx tx1)\<rparr>))))) db
        = (None, db')"
    by (simp add: StoreIntermediateTx_def)
  from db_Update_ok [OF this] None show ?thesis
    by (auto simp: Let_def in_confirmed_def in_pending_def bucket_Get_Put bucket_Get_Delete
        split: sum.splits option.splits)
next
  case (Some e)
  with assms have "db' = db"
    unfolding StoreIntermediateTx_def by (auto dest: db_Update_error)
  with Some show ?thesis by simp
qed

lemma StorePending_result:
  assumes "StorePendingIntermediateTx marshalTx marshalID fl ident data db = (err, db')"
  shows "db' = db \<or>
         (\<exists>k v. marshalID ident = Inr k \<and>
            db' = db\<lparr>pendingIntermediateTx := bucket_Put k v (pendingIntermediateTx db)\<rparr>)"
  using assms
  by (auto simp: StorePendingIntermediateTx_def db_Update_def Let_def
      split: option.splits sum.splits prod.splits)

lemma Promote_result:
  assumes "StoreIntermediateTx marshalTx marshalID ToBytes fl ident data db = (err, db')"
  shows "db' = db \<or>
         (\<exists>k v. marshalID ident = Inr k \<and>
            db' = db\<lparr>intermediateTx := bucket_Put (ToBytes ident) v (intermediateTx db),
                     pendingIntermediateTx := bucket_Delete k (pendingIntermediateTx db)\<rparr>)"
  using assms
  by (auto simp: StoreIntermediateTx_def db_Update_def Let_def
      split: option.splits sum.splits prod.splits)

lemma StorePending_keeps:
  assumes injm: "\<forall>i j k. marshalID i = Inr k \<and> marshalID j = Inr k \<longrightarrow> i = j"
    and inv: "\<forall>i. \<not> (in_pending marshalID db i \<and> in_confirmed ToBytes db i)"
    and fresh: "\<not> in_confirmed ToBytes db ident"
  shows "\<not> (in_pending marshalID
              (snd (StorePendingIntermediateTx marshalTx marshalID fl ident data db)) j \<and>
            in_confirmed ToBytes
              (snd (StorePendingIntermediateTx marshalTx marshalID fl ident data db)) j)"
proof -
  obtain err db' where
    r: "StorePendingIntermediateTx marshalTx marshalID fl ident data db = (err, db')"
    by (cases "StorePendingIntermediateTx marshalTx marshalID fl ident data db")
  from StorePending_result [OF r] show ?thesis
  proof
    assume "db' = db"
    with r inv show ?thesis by simp
  next
    assume "\<exists>k v. marshalID ident = Inr k \<and>
            db' = db\<lparr>pendingIntermediateTx := bucket_Put k v (pendingIntermediateTx db)\<rparr>"
    then obtain k v where k: "marshalID ident = Inr k"
      and d: "db' = db\<lparr>pendingIntermediateTx := bucket_Put k v (pendingIntermediateTx db)\<rparr>"
      by blast
    have c: "in_confirmed ToBytes db' j = in_confirmed ToBytes db j"
      by (simp add: d in_confirmed_def)
    show ?thesis
    proof (cases "j = ident")
      case True
      with fresh c r show ?thesis by simp
    next
      case False
      with injm k have "marshalID j \<noteq> Inr k" by blast
      then have "in_pending marshalID db' j = in_pending marshalID db j"
        by (auto simp: d in_pending_def bucket_Get_Put split: sum.splits)
      with c inv r show ?thesis by simp
    qed
  qed
qed

lemma Promote_keeps:
  assumes inj: "inj ToBytes"
    and inv: "\<forall>i. \<not> (in_pending marshalID db i \<and> in_confirmed ToBytes db i)"
  shows "\<not> (in_pending marshalID
              (snd (StoreIntermediateTx marshalTx marshalID ToBytes fl ident data db)) j \<and>
            in_confirmed ToBytes
              (snd (StoreIntermediateTx marshalTx marshalID ToBytes fl ident data db)) j)"
proof -
  obtain err db' where
    r: "StoreIntermediateTx marshalTx marshalID ToBytes fl ident data db = (err, db')"
    by (cases "StoreIntermediateTx marshalTx marshalID ToBytes fl ident data db")
  from Promote_result [OF r] show ?thesis
  proof
    assume "db' = db"
    with r inv show ?thesis by simp
  next
    assume "\<exists>k v. marshalID ident = Inr k \<and>
            db' = db\<lparr>intermediateTx := bucket_Put (ToBytes ident) v (intermediateTx db),
                     pendingIntermediateTx := bucket_Delete k (pendingIntermediateTx db)\<rparr>"
    then obtain k v where k: "marshalID ident = Inr k"
      and d: "db' = db\<lparr>intermediateTx := bucket_Put (ToBytes ident) v (intermediateTx db),
                     pendingIntermediateTx := bucket_Delete k (pendingIntermediateTx db)\<rparr>"
      by blast
    have p: "in_pending marshalID db' j \<Longrightarrow> in_pending marshalID db j \<and> j \<noteq> ident"
      using k by (auto simp: d in_pending_def bucket_Get_Delete split: sum.splits if_splits)
    have c: "in_confirmed ToBytes db' j \<Longrightarrow> j = ident \<or> in_confirmed ToBytes db j"
      using inj by (auto simp: d in_confirmed_def bucket_Get_Put inj_eq split: if_splits)
    from p c inv r show ?thesis by auto
  qed
qed

lemma run_ops_keeps:
  assumes inj: "inj ToBytes"
    and injm: "\<forall>i j k. marshalID i = Inr k \<and> marshalID j = Inr k \<longrightarrow> i = j"
  shows "\<forall>i. \<not> (in_pending marshalID db i \<and> in_confirmed ToBytes db i) \<Longrightarrow>
         no_resubmission marshalTx marshalID ToBytes ops db \<Longrightarrow>
         \<forall>i. \<not> (in_pending marshalID (run_ops marshalTx marshalID ToBytes ops db) i \<and>
                  in_confirmed ToBytes (run_ops marshalTx marshalID ToBytes ops db) i)"
proof (induction ops arbitrary: db)
  case Nil
  then show ?case by simp
next
  case (Cons x ops)
  show ?case
  proof (cases x)
    case (StorePending fl ident data)
    with Cons.prems(2) have fresh: "\<not> in_confirmed ToBytes db ident"
      and rest: "no_resubmission marshalTx marshalID ToBytes ops
                   (apply_op marshalTx marshalID ToBytes x db)" by simp_all
    have "\<not> (in_pending marshalID (apply_op marshalTx marshalID ToBytes x db) i \<and>
              in_confirmed ToBytes (apply_op marshalTx marshalID ToBytes x db) i)" for i
      unfolding StorePending apply_op.simps
      by (rule StorePending_keeps [OF injm Cons.prems(1) fresh])
    then have "\<forall>i. \<not> (in_pending marshalID (apply_op marshalTx marshalID ToBytes x db) i \<and>
                  in_confirmed ToBytes (apply_op marshalTx marshalID ToBytes x db) i)"
      by blast
    from Cons.IH [OF this rest] show ?thesis by simp
  next
    case (Promote fl ident data)
    with Cons.prems(2) have rest: "no_resubmission marshalTx marshalID ToBytes ops
                   (apply_op marshalTx marshalID ToBytes x db)" by simp
    have "\<not> (in_pending marshalID (apply_op marshalTx marshalID ToBytes x db) i \<and>
              in_confirmed ToBytes (apply_op marshalTx marshalID ToBytes x db) i)" for i
      unfolding Promote apply_op.simps
      by (rule Promote_keeps [OF inj Cons.prems(1)])
    then have "\<forall>i. \<not> (in_pending marshalID (apply_op marshalTx marshalID ToBytes x db) i \<and>
                  in_confirmed ToBytes (apply_op marshalTx marshalID ToBytes x db) i)"
      by blast
    from Cons.IH [OF this rest] show ?thesis by simp
  qed
qed

lemma bit_char_inj: "inj bit_char"
  by (auto simp: inj_def bit_char_def split: if_splits)

lemma key_of_inj: "key_of i = key_of j \<Longrightarrow> i = j"
proof -
  assume a: "key_of i = key_of j"
  from a have m: "map (\<lambda>n. bit_char (bit (Timepoint i) n)) [0..<64] =
                  map (\<lambda>n. bit_char (bit (Timepoint j) n)) [0..<64]"
    and e: "EID i = EID j"
    by (simp_all add: key_of_def)
  have "bit (Timepoint i) n = bit (Timepoint j) n" if "n < 64" for n
  proof -
    from m that have "bit_char (bit (Timepoint i) n) = bit_char (bit (Timepoint j) n)"
      by (simp only: map_eq_conv set_upt atLeastLessThan_iff) simp
    then show ?thesis
      using bit_char_inj by (simp add: inj_eq)
  qed
  then have "Timepoint i = Timepoint j"
    by (intro bit_word_eqI) simp
  with e show "i = j" by simp
qed

lemma full_ToBytes_inj: "inj full_ToBytes"
  by (auto simp: inj_def full_ToBytes_def dest: key_of_inj)

lemma full_marshalID_inj:
  "\<forall>i j k. full_marshalID i = Inr k \<and> full_marshalID j = Inr k \<longrightarrow> i = j"
  by (auto simp: full_marshalID_def dest: key_of_inj)

lemma key_of_deps: "key_of dep_2 \<noteq> key_of dep_1"
proof
  assume "key_of dep_2 = key_of dep_1"
  then have "dep_2 = dep_1" by (rule key_of_inj)
  then show False by (simp add: dep_1_def dep_2_def)
qed

lemma demo_run_eq:
  "run_ops Inr full_marshalID full_ToBytes demo_ops empty_bolt =
     \<lparr>intermediateTx = [(full_ToBytes dep_1, ''tx'')],
      pendingIntermediateTx = [(''json:'' @ key_of dep_2, ''tx'')], tradeHistory = []\<rparr>"
  by (simp add: demo_ops_def StorePendingIntermediateTx_def StoreIntermediateTx_def db_Update_def
      no_faults_def full_marshalID_def empty_bolt_def bucket_Delete_def Let_def)

lemma demo_no_resubmission:
  "no_resubmission Inr full_marshalID full_ToBytes demo_ops empty_bolt"
  using key_of_deps
  by (simp add: demo_ops_def StorePendingIntermediateTx_def StoreIntermediateTx_def db_Update_def
      no_faults_def full_marshalID_def full_ToBytes_def empty_bolt_def bucket_Delete_def Let_def
      in_confirmed_def bucket_Get_def)

text \<open>
  C2. The claim: after any sequence of \<^verbatim>\<open>StorePendingIntermediateTx\<close> and
  \<^verbatim>\<open>StoreIntermediateTx\<close> an id is in at most one of the two buckets.
  \<^verbatim>\<open>StorePendingIntermediateTx\<close> writes the pending bucket without looking at the other
  one: an id that is stored as pending, promoted, and stored as pending again (a
  resubmission) is in both.
\<close>

theorem resubmitted_in_both_counterexample:
  "in_pending demo_marshalID resubmitted dep_1 \<and> in_confirmed demo_ToBytes resubmitted dep_1"
  by (simp add: resubmitted_eq demo_marshalID_def demo_ToBytes_def dep_1_def in_pending_def
      in_confirmed_def bucket_Get_def)

text \<open>
  C2, amended. With key encodings that tell ids apart, from a store in which every id is
  in at most one bucket, and after any sequence of \<^verbatim>\<open>StorePendingIntermediateTx\<close> and
  \<^verbatim>\<open>StoreIntermediateTx\<close>, under any failures, that never stores as pending an id that
  is in the confirmed bucket at that moment: every id is in at most one of the two
  buckets. And \<^verbatim>\<open>StoreIntermediateTx\<close> is all or nothing, from every store: when it
  returns no error, the encoded entry is in the confirmed bucket under \<^verbatim>\<open>ToBytes(id)\<close>,
  the JSON key of the id is gone from the pending bucket, nothing else has changed, and so
  the id is in the confirmed bucket and not in the pending one; when it returns an error
  (of an encoding, of \<^verbatim>\<open>Put\<close>, of \<^verbatim>\<open>Delete\<close>, or of the transaction), the store is as
  it was.
\<close>

theorem intermediate_tx_exclusive:
  assumes "inj ToBytes"
    and "\<forall>i j k. marshalID i = Inr k \<and> marshalID j = Inr k \<longrightarrow> i = j"
    and "\<forall>i. \<not> (in_pending marshalID db i \<and> in_confirmed ToBytes db i)"
    and "no_resubmission marshalTx marshalID ToBytes ops db"
  shows "(\<forall>i. \<not> (in_pending marshalID (run_ops marshalTx marshalID ToBytes ops db) i \<and>
                  in_confirmed ToBytes (run_ops marshalTx marshalID ToBytes ops db) i)) \<and>
         (\<forall>fl ident data s err s'.
            StoreIntermediateTx marshalTx marshalID ToBytes fl ident data s = (err, s') \<longrightarrow>
            (err = None \<longrightarrow>
               (\<exists>dataJSON idJSON. marshalTx data = Inr dataJSON \<and> marshalID ident = Inr idJSON \<and>
                  intermediateTx s' = bucket_Put (ToBytes ident) dataJSON (intermediateTx s) \<and>
                  pendingIntermediateTx s' = bucket_Delete idJSON (pendingIntermediateTx s) \<and>
                  tradeHistory s' = tradeHistory s \<and>
                  bucket_Get (ToBytes ident) (intermediateTx s') = Some dataJSON \<and>
                  bucket_Get idJSON (pendingIntermediateTx s') = None) \<and>
               in_confirmed ToBytes s' ident \<and> \<not> in_pending marshalID s' ident) \<and>
            (err \<noteq> None \<longrightarrow> s' = s))"
proof -
  have seq: "\<forall>i. \<not> (in_pending marshalID (run_ops marshalTx marshalID ToBytes ops db) i \<and>
                  in_confirmed ToBytes (run_ops marshalTx marshalID ToBytes ops db) i)"
    by (rule run_ops_keeps [OF assms(1,2,3,4)])
  have one: "(err = None \<longrightarrow>
               (\<exists>dataJSON idJSON. marshalTx data = Inr dataJSON \<and> marshalID ident = Inr idJSON \<and>
                  intermediateTx s' = bucket_Put (ToBytes ident) dataJSON (intermediateTx s) \<and>
                  pendingIntermediateTx s' = bucket_Delete idJSON (pendingIntermediateTx s) \<and>
                  tradeHistory s' = tradeHistory s \<and>
                  bucket_Get (ToBytes ident) (intermediateTx s') = Some dataJSON \<and>
                  bucket_Get idJSON (pendingIntermediateTx s') = None) \<and>
               in_confirmed ToBytes s' ident \<and> \<not> in_pending marshalID s' ident) \<and>
            (err \<noteq> None \<longrightarrow> s' = s)"
    if "StoreIntermediateTx marshalTx marshalID ToBytes fl ident data s = (err, s')"
    for fl ident data s err s'
    using that by (rule StoreIntermediateTx_all_or_nothing)
  from seq one show ?thesis by blast
qed

theorem intermediate_tx_exclusive_witness:
  "inj full_ToBytes \<and>
   no_resubmission Inr full_marshalID full_ToBytes demo_ops empty_bolt \<and>
   in_confirmed full_ToBytes (run_ops Inr full_marshalID full_ToBytes demo_ops empty_bolt) dep_1 \<and>
   \<not> in_pending full_marshalID (run_ops Inr full_marshalID full_ToBytes demo_ops empty_bolt) dep_1 \<and>
   in_pending full_marshalID (run_ops Inr full_marshalID full_ToBytes demo_ops empty_bolt) dep_2 \<and>
   \<not> in_confirmed full_ToBytes (run_ops Inr full_marshalID full_ToBytes demo_ops empty_bolt) dep_2 \<and>
   StoreIntermediateTx Inr full_marshalID full_ToBytes
       (no_faults\<lparr>delete_fault := Some (ErrBolt ''tx not writable'')\<rparr>) dep_2 ''tx''
       (run_ops Inr full_marshalID full_ToBytes demo_ops empty_bolt)
     = (Some (ErrBolt ''tx not writable''),
        run_ops Inr full_marshalID full_ToBytes demo_ops empty_bolt) \<and>
   fst (StoreIntermediateTx Inr full_marshalID full_ToBytes no_faults dep_2 ''tx''
          (run_ops Inr full_marshalID full_ToBytes demo_ops empty_bolt)) = None \<and>
   in_confirmed full_ToBytes
     (snd (StoreIntermediateTx Inr full_marshalID full_ToBytes no_faults dep_2 ''tx''
             (run_ops Inr full_marshalID full_ToBytes demo_ops empty_bolt))) dep_2 \<and>
   \<not> in_pending full_marshalID
     (snd (StoreIntermediateTx Inr full_marshalID full_ToBytes no_faults dep_2 ''tx''
             (run_ops Inr full_marshalID full_ToBytes demo_ops empty_bolt))) dep_2"
proof -
  let ?s = "run_ops Inr full_marshalID full_ToBytes demo_ops empty_bolt"
  have inv0: "\<forall>i. \<not> (in_pending full_marshalID empty_bolt i \<and>
                        in_confirmed full_ToBytes empty_bolt i)"
    by (simp add: in_confirmed_def empty_bolt_def bucket_Get_def)
  note t = intermediate_tx_exclusive [OF full_ToBytes_inj full_marshalID_inj inv0
      demo_no_resubmission]
  have c1: "in_confirmed full_ToBytes ?s dep_1"
    by (simp add: demo_run_eq in_confirmed_def bucket_Get_def)
  have p2: "in_pending full_marshalID ?s dep_2"
    by (simp add: demo_run_eq in_pending_def full_marshalID_def bucket_Get_def)
  from t c1 have n1: "\<not> in_pending full_marshalID ?s dep_1" by blast
  from t p2 have n2: "\<not> in_confirmed full_ToBytes ?s dep_2" by blast
  have bad: "StoreIntermediateTx Inr full_marshalID full_ToBytes
               (no_faults\<lparr>delete_fault := Some (ErrBolt ''tx not writable'')\<rparr>) dep_2 ''tx'' ?s
               = (Some (ErrBolt ''tx not writable''), ?s)"
    by (simp add: StoreIntermediateTx_def db_Update_def no_faults_def full_marshalID_def Let_def)
  have ok: "fst (StoreIntermediateTx Inr full_marshalID full_ToBytes no_faults dep_2 ''tx'' ?s)
              = None"
    by (simp add: StoreIntermediateTx_def db_Update_def no_faults_def full_marshalID_def Let_def)
  then have "StoreIntermediateTx Inr full_marshalID full_ToBytes no_faults dep_2 ''tx'' ?s =
      (None, snd (StoreIntermediateTx Inr full_marshalID full_ToBytes no_faults dep_2 ''tx'' ?s))"
    by (metis prod.collapse)
  with t have a: "in_confirmed full_ToBytes
       (snd (StoreIntermediateTx Inr full_marshalID full_ToBytes no_faults dep_2 ''tx'' ?s)) dep_2"
    "\<not> in_pending full_marshalID
       (snd (StoreIntermediateTx Inr full_marshalID full_ToBytes no_faults dep_2 ''tx'' ?s)) dep_2"
    by blast+
  from full_ToBytes_inj demo_no_resubmission c1 n1 p2 n2 ok bad a show ?thesis by blast
qed

text \<open>
  C7. For every store and every pair of times: when \<^verbatim>\<open>toTime - fromTime\<close> (a uint64
  difference) is above the maximum of 3 days, 259200000 ms, \<^verbatim>\<open>GetTradeHistory\<close> returns
  the empty history and the range error, whatever the store holds and whether or not a
  transaction on it could begin, so without reading it; at or under the maximum the result
  is that of the scan inside \<^verbatim>\<open>db.View\<close>.
\<close>

theorem GetTradeHistory_range:
  "maxGetTradeHistory = 259200000 \<and>
   (toTime - fromTime > maxGetTradeHistory \<longrightarrow>
      GetTradeHistory unmarshal BytesToUint64 fl db fromTime toTime = ([], Some ErrRangeTooBroad)) \<and>
   (toTime - fromTime \<le> maxGetTradeHistory \<longrightarrow>
      GetTradeHistory unmarshal BytesToUint64 fl db fromTime toTime =
        (case db_View fl (\<lambda>tx. history_scan unmarshal BytesToUint64
                 (FormatUint fromTime) (FormatUint toTime) (tradeHistory tx) []) db of
           Inl err \<Rightarrow> ([], Some err)
         | Inr exchangeHistory \<Rightarrow> (exchangeHistory, None)))"
  by (auto simp add: GetTradeHistory_def Let_def maxGetTradeHistory_def)

lemma FormatUint_examples: "FormatUint 1000 = ''1000''" "FormatUint 3000 = ''3000''"
  by code_simp+

theorem GetTradeHistory_range_witness:
  "(259200001 :: 64 word) - 0 > maxGetTradeHistory \<and>
   GetTradeHistory Inr (\<lambda>key. 7) no_faults demo_history 0 259200001 = ([], Some ErrRangeTooBroad) \<and>
   (3000 :: 64 word) - 1000 \<le> maxGetTradeHistory \<and>
   GetTradeHistory Inr (\<lambda>key. 7) no_faults demo_history 1000 3000 = ([(7, [''t1'', ''t2''])], None)"
proof -
  have wide: "(259200001 :: 64 word) - 0 > maxGetTradeHistory"
    by (simp add: maxGetTradeHistory_def)
  have narrow: "(3000 :: 64 word) - 1000 \<le> maxGetTradeHistory"
    by (simp add: maxGetTradeHistory_def)
  have scan: "history_scan Inr (\<lambda>key. 7) ''1000'' ''3000'' (tradeHistory demo_history) []
                = Inr [(7 :: 64 word, [''t1'', ''t2''])]"
    by (simp add: demo_history_def cursor_Seek_def)
  from GetTradeHistory_range [of 259200001 0 Inr "\<lambda>key. 7" no_faults demo_history] wide
  have 1: "GetTradeHistory Inr (\<lambda>key. 7) no_faults demo_history 0 259200001
             = ([], Some ErrRangeTooBroad)"
    by blast
  from GetTradeHistory_range [of 3000 1000 Inr "\<lambda>key. 7" no_faults demo_history] narrow
  have "GetTradeHistory Inr (\<lambda>key. 7) no_faults demo_history 1000 3000 =
        (case db_View no_faults (\<lambda>tx. history_scan Inr (\<lambda>key. 7)
                 (FormatUint 1000) (FormatUint 3000) (tradeHistory tx) []) demo_history of
           Inl err \<Rightarrow> ([], Some err)
         | Inr exchangeHistory \<Rightarrow> (exchangeHistory, None))"
    by blast
  then have 2: "GetTradeHistory Inr (\<lambda>key. 7) no_faults demo_history 1000 3000
                  = ([(7, [''t1'', ''t2''])], None)"
    by (simp add: FormatUint_examples db_View_def no_faults_def scan)
  from wide narrow 1 2 show ?thesis by blast
qed

text \<open>
  C10. For uint64 times with \<^verbatim>\<open>fromTime > toTime\<close> whose distance is below
  \<open>2^64 - 259200000\<close>, the difference \<^verbatim>\<open>toTime - fromTime\<close> wraps to a value above the
  maximum: \<^verbatim>\<open>GetTradeHistory\<close> returns the empty history and the range error, and the
  inverted range is not scanned.
\<close>

theorem GetTradeHistory_inverted:
  assumes "toTime < fromTime" and "unat fromTime - unat toTime < 2 ^ 64 - 259200000"
  shows "GetTradeHistory unmarshal BytesToUint64 fl db fromTime toTime
           = ([], Some ErrRangeTooBroad)"
proof -
  have lt: "unat toTime < unat fromTime"
    using assms(1) by (simp add: word_less_nat_alt)
  have b: "unat fromTime < 2 ^ 64"
    using unsigned_less [of fromTime] by simp
  have "unat (toTime - fromTime) = unat toTime + 2 ^ 64 - unat fromTime"
    using lt by (simp add: unat_sub_if')
  then have "unat (toTime - fromTime) > 259200000"
    using assms(2) lt b by simp
  then have "toTime - fromTime > maxGetTradeHistory"
    by (simp add: maxGetTradeHistory_def word_less_nat_alt)
  then show ?thesis by (simp add: GetTradeHistory_def)
qed

theorem GetTradeHistory_inverted_witness:
  "(1000 :: 64 word) < 2000 \<and>
   unat (2000 :: 64 word) - unat (1000 :: 64 word) < 2 ^ 64 - 259200000 \<and>
   GetTradeHistory Inr (\<lambda>key. 7) no_faults demo_history 2000 1000 = ([], Some ErrRangeTooBroad)"
proof -
  have h1: "(1000 :: 64 word) < 2000" by simp
  have h2: "unat (2000 :: 64 word) - unat (1000 :: 64 word) < 2 ^ 64 - 259200000" by simp
  show ?thesis
    using h1 h2 GetTradeHistory_inverted [OF h1 h2, of Inr "\<lambda>key. 7" no_faults demo_history]
    by simp
qed

text \<open>
  The bound on the distance is needed: from \<open>2^64 - 1\<close> to 0 the difference wraps to 1,
  and the range is scanned.
\<close>

lemma wrapped_range_scanned:
  "GetTradeHistory Inr (\<lambda>key. 7) no_faults empty_bolt (- 1) 0 = ([], None)"
  by (simp add: GetTradeHistory_def maxGetTradeHistory_def db_View_def no_faults_def
      empty_bolt_def)

section \<open>Properties of the PostgreSQL storage\<close>

lemma first_of_sorted_desc:
  assumes "xs \<noteq> []"
  shows "hd (rev (sort_key f xs)) \<in> set xs \<and>
         (\<forall>x \<in> set xs. f x \<le> f (hd (rev (sort_key f xs))))"
proof -
  let ?ys = "sort_key f xs"
  have ne: "?ys \<noteq> []"
    using assms by (metis length_sort length_0_conv)
  then have h: "hd (rev ?ys) = last ?ys"
    by (simp add: hd_rev)
  have mem: "last ?ys \<in> set xs"
    using ne last_in_set [of ?ys] by simp
  have srt: "sorted (map f ?ys)"
    by (rule sorted_sort_key)
  have "f x \<le> f (last ?ys)" if "x \<in> set xs" for x
  proof -
    from that have "x \<in> set ?ys" by simp
    then obtain i where i: "i < length ?ys" "?ys ! i = x"
      unfolding in_set_conv_nth by blast
    have "map f ?ys ! i \<le> map f ?ys ! (length ?ys - 1)"
      using srt i(1) by (intro sorted_nth_mono) auto
    then show ?thesis
      using i ne by (simp add: last_conv_nth)
  qed
  with h mem show ?thesis by simp
qed

lemma currentVersion_unfold:
  "currentVersion None dataType timepoint db =
     (let ms = filter (qualifies dataType timepoint) (fetch_data db)
      in if ms = [] then Inl (ErrNoVersion timepoint)
         else Inr (fd_id (hd (rev (sort_key fd_created ms)))))"
proof -
  let ?ms = "filter (qualifies dataType timepoint) (fetch_data db)"
  show ?thesis
  proof (cases "?ms = []")
    case True
    then show ?thesis
      by (simp add: currentVersion_def db_Get_def Let_def)
  next
    case False
    then have "sort_key fd_created ?ms \<noteq> []"
      by (metis length_sort length_0_conv)
    then have "rev (sort_key fd_created ?ms) \<noteq> []" by simp
    then obtain r rs where "rev (sort_key fd_created ?ms) = r # rs"
      by (cases "rev (sort_key fd_created ?ms)") auto
    with False show ?thesis
      by (simp add: currentVersion_def db_Get_def Let_def)
  qed
qed

lemma currentVersion_latest:
  assumes "filter (qualifies dataType timepoint) (fetch_data db) \<noteq> []"
  shows "\<exists>r \<in> set (fetch_data db).
           currentVersion None dataType timepoint db = Inr (fd_id r) \<and>
           qualifies dataType timepoint r \<and>
           (\<forall>r' \<in> set (fetch_data db). qualifies dataType timepoint r' \<longrightarrow>
               fd_created r' \<le> fd_created r)"
proof -
  let ?ms = "filter (qualifies dataType timepoint) (fetch_data db)"
  let ?r = "hd (rev (sort_key fd_created ?ms))"
  from first_of_sorted_desc [OF assms, of fd_created]
  have "?r \<in> set ?ms" and "\<forall>x \<in> set ?ms. fd_created x \<le> fd_created ?r" by auto
  then have "?r \<in> set (fetch_data db)" and "qualifies dataType timepoint ?r"
    and "\<forall>r' \<in> set (fetch_data db). qualifies dataType timepoint r' \<longrightarrow>
           fd_created r' \<le> fd_created ?r"
    by auto
  moreover have "currentVersion None dataType timepoint db = Inr (fd_id ?r)"
    using assms by (simp add: currentVersion_unfold Let_def)
  ultimately show ?thesis by blast
qed

lemma currentVersion_none:
  assumes "filter (qualifies dataType timepoint) (fetch_data db) = []"
  shows "currentVersion None dataType timepoint db = Inl (ErrNoVersion timepoint)"
  using assms by (simp add: currentVersion_unfold)

lemma currentVersion_greatest_id:
  assumes mono: "\<forall>r \<in> set (fetch_data db). \<forall>r' \<in> set (fetch_data db).
            qualifies dataType timepoint r \<and> qualifies dataType timepoint r' \<and>
            fd_created r \<le> fd_created r' \<longrightarrow> fd_id r \<le> fd_id r'"
  shows "currentVersion None dataType timepoint db = spec_CurrentVersion dataType timepoint db"
proof (cases "filter (qualifies dataType timepoint) (fetch_data db) = []")
  case True
  then show ?thesis
    by (simp add: currentVersion_none spec_CurrentVersion_def)
next
  case False
  let ?ms = "filter (qualifies dataType timepoint) (fetch_data db)"
  from currentVersion_latest [OF False] obtain r where r: "r \<in> set (fetch_data db)"
    "currentVersion None dataType timepoint db = Inr (fd_id r)"
    "qualifies dataType timepoint r"
    "\<forall>r' \<in> set (fetch_data db). qualifies dataType timepoint r' \<longrightarrow> fd_created r' \<le> fd_created r"
    by blast
  have "Max (set (map fd_id ?ms)) = fd_id r"
  proof (rule Max_eqI)
    show "finite (set (map fd_id ?ms))" by simp
    show "fd_id r \<in> set (map fd_id ?ms)" using r(1,3) by auto
    fix y assume "y \<in> set (map fd_id ?ms)"
    then obtain r' where r': "r' \<in> set (fetch_data db)" "qualifies dataType timepoint r'"
      "y = fd_id r'" by auto
    with r(4) have "fd_created r' \<le> fd_created r" by blast
    with mono r(1,3) r' show "y \<le> fd_id r" by blast
  qed
  with False r(2) show ?thesis
    by (simp add: spec_CurrentVersion_def Let_def)
qed

lemma three_snapshots_eq:
  "three_snapshots = \<lparr>fetch_data =
      [\<lparr>fd_id = 1, fd_created = 10, fd_data = ''a'', fd_type = priceDataType\<rparr>,
       \<lparr>fd_id = 2, fd_created = 20, fd_data = ''b'', fd_type = priceDataType\<rparr>,
       \<lparr>fd_id = 3, fd_created = 30, fd_data = ''c'', fd_type = priceDataType\<rparr>],
     fetch_data_id_seq = 4, activity = [], activity_id_seq = 1\<rparr>"
  by (simp add: three_snapshots_def storeFetchData_def empty_postgres_def MillisToTime_def)

lemma late_snapshot_eq:
  "late_snapshot = \<lparr>fetch_data =
      [\<lparr>fd_id = 1, fd_created = 20, fd_data = ''a'', fd_type = priceDataType\<rparr>,
       \<lparr>fd_id = 2, fd_created = 10, fd_data = ''b'', fd_type = priceDataType\<rparr>],
     fetch_data_id_seq = 3, activity = [], activity_id_seq = 1\<rparr>"
  by (simp add: late_snapshot_def storeFetchData_def empty_postgres_def MillisToTime_def)

text \<open>
  C3. The claim: \<^verbatim>\<open>CurrentVersion\<close> returns the greatest id among the records of the
  category created at or before the timestamp. The query orders by \<^verbatim>\<open>created\<close>, not by
  id. After a snapshot stored with time 20 (id 1) and one stored with time 10 (id 2), the
  version as of 25 is 1, where the greatest id is 2.
\<close>

theorem currentVersion_late_snapshot_counterexample:
  "currentVersion None priceDataType 25 late_snapshot = Inr 1 \<and>
   spec_CurrentVersion priceDataType 25 late_snapshot = Inr 2"
  by (simp add: late_snapshot_eq currentVersion_def spec_CurrentVersion_def qualifies_def
      db_Get_def MillisToTime_def)

text \<open>
  C3, amended. When the query goes through, \<^verbatim>\<open>CurrentVersion\<close> returns the id of a
  record of the category with the latest \<^verbatim>\<open>created\<close> among those created at or before
  the timestamp, and fails with the "no version" error exactly when there is no such
  record. Where the ids of these records grow with their creation times, that id is the
  greatest one, as the spec has it.
\<close>

theorem currentVersion_as_of:
  "(case currentVersion None dataType timepoint db of
      Inl err \<Rightarrow> err = ErrNoVersion timepoint \<and>
                 (\<forall>r \<in> set (fetch_data db). \<not> qualifies dataType timepoint r)
    | Inr v \<Rightarrow> (\<exists>r \<in> set (fetch_data db). fd_id r = v \<and> qualifies dataType timepoint r \<and>
                  (\<forall>r' \<in> set (fetch_data db). qualifies dataType timepoint r' \<longrightarrow>
                      fd_created r' \<le> fd_created r))) \<and>
   ((\<forall>r \<in> set (fetch_data db). \<forall>r' \<in> set (fetch_data db).
        qualifies dataType timepoint r \<and> qualifies dataType timepoint r' \<and>
        fd_created r \<le> fd_created r' \<longrightarrow> fd_id r \<le> fd_id r') \<longrightarrow>
    currentVersion None dataType timepoint db = spec_CurrentVersion dataType timepoint db)"
proof (intro conjI impI)
  show "case currentVersion None dataType timepoint db of
      Inl err \<Rightarrow> err = ErrNoVersion timepoint \<and>
                 (\<forall>r \<in> set (fetch_data db). \<not> qualifies dataType timepoint r)
    | Inr v \<Rightarrow> (\<exists>r \<in> set (fetch_data db). fd_id r = v \<and> qualifies dataType timepoint r \<and>
                  (\<forall>r' \<in> set (fetch_data db). qualifies dataType timepoint r' \<longrightarrow>
                      fd_created r' \<le> fd_created r))"
  proof (cases "filter (qualifies dataType timepoint) (fetch_data db) = []")
    case True
    then have "\<forall>r \<in> set (fetch_data db). \<not> qualifies dataType timepoint r"
      by (simp add: filter_empty_conv)
    with currentVersion_none [OF True] show ?thesis by simp
  next
    case False
    from currentVersion_latest [OF False] show ?thesis by force
  qed
next
  assume "\<forall>r \<in> set (fetch_data db). \<forall>r' \<in> set (fetch_data db).
        qualifies dataType timepoint r \<and> qualifies dataType timepoint r' \<and>
        fd_created r \<le> fd_created r' \<longrightarrow> fd_id r \<le> fd_id r'"
  then show "currentVersion None dataType timepoint db = spec_CurrentVersion dataType timepoint db"
    by (rule currentVersion_greatest_id)
qed

theorem currentVersion_as_of_witness:
  "currentVersion None priceDataType 25 three_snapshots = Inr 2 \<and>
   spec_CurrentVersion priceDataType 25 three_snapshots = Inr 2 \<and>
   currentVersion None priceDataType 5 three_snapshots = Inl (ErrNoVersion 5)"
proof -
  have mono: "\<forall>r \<in> set (fetch_data three_snapshots). \<forall>r' \<in> set (fetch_data three_snapshots).
        qualifies priceDataType 25 r \<and> qualifies priceDataType 25 r' \<and>
        fd_created r \<le> fd_created r' \<longrightarrow> fd_id r \<le> fd_id r'"
    by (simp add: three_snapshots_eq qualifies_def MillisToTime_def)
  have s: "spec_CurrentVersion priceDataType 25 three_snapshots = Inr 2"
    by (simp add: three_snapshots_eq spec_CurrentVersion_def qualifies_def MillisToTime_def)
  have none: "\<forall>r \<in> set (fetch_data three_snapshots). \<not> qualifies priceDataType 5 r"
    by (simp add: three_snapshots_eq qualifies_def MillisToTime_def)
  from currentVersion_as_of [where dataType = priceDataType and timepoint = 25
      and db = three_snapshots] mono s
  have 1: "currentVersion None priceDataType 25 three_snapshots = Inr 2" by simp
  from currentVersion_as_of [where dataType = priceDataType and timepoint = 5
      and db = three_snapshots] none
  have 2: "currentVersion None priceDataType 5 three_snapshots = Inl (ErrNoVersion 5)"
    by (auto split: sum.splits)
  from 1 2 s show ?thesis by simp
qed

lemma has_id_settle: "has_id ident (settle ident' d r) = has_id ident r"
  by (simp add: settle_def has_id_def)

lemma settle_twice: "settle ident d (settle ident d r) = settle ident d r"
  by (simp add: settle_def has_id_def)

lemma filter_has_id_settle:
  "filter (has_id ident) (map (settle ident d) rows) =
     map (settle ident d) (filter (has_id ident) rows)"
  by (induction rows) (auto simp: has_id_settle)

lemma UpdateActivity_absent:
  "filter (has_id ident) (activity db) = [] \<Longrightarrow>
   UpdateActivity IsPending marshal None exec_fault ident act db = (None, db)"
  by (simp add: UpdateActivity_def db_Get_def)

lemma UpdateActivity_present:
  "filter (has_id ident) (activity db) \<noteq> [] \<Longrightarrow> marshal act = Inr dataBytes \<Longrightarrow>
   UpdateActivity IsPending marshal None None ident act db =
     (None, if IsPending act then db
            else db\<lparr>activity := map (settle ident dataBytes) (activity db)\<rparr>)"
  by (cases "filter (has_id ident) (activity db)") (auto simp: UpdateActivity_def db_Get_def)

lemma one_pending_eq:
  "one_pending = \<lparr>fetch_data = [], fetch_data_id_seq = 1,
     activity = [\<lparr>act_id = 1, act_timepoint = 500, act_eid = ''dep-1'', act_created = 500,
                  act_is_pending = True, act_data = ''deposit:dep-1:''\<rparr>],
     activity_id_seq = 2\<rparr>"
  by (simp add: one_pending_def Record_def Let_def demo_marshalActivity_def NewActivityRecord_def
      empty_postgres_def dep_1_def MillisToTime_def)

text \<open>
  C4. The claim: \<^verbatim>\<open>Record\<close> fails with a conflict error when an activity with the same
  id is in the ledger. The table has no unique constraint on \<^verbatim>\<open>(timepoint, eid)\<close> and
  \<^verbatim>\<open>Record\<close> does not look the id up: recording the same id twice succeeds twice and
  leaves two rows with the id.
\<close>

theorem Record_duplicate_counterexample:
  "fst recorded_twice = None \<and>
   map act_id (filter (has_id dep_1) (activity (snd recorded_twice))) = [1, 2]"
  by (simp add: recorded_twice_def Record_def Let_def demo_marshalActivity_def
      NewActivityRecord_def empty_postgres_def has_id_def dep_1_def)

text \<open>
  C4, amended. When the record can be encoded and the insert goes through, \<^verbatim>\<open>Record\<close>
  returns no error and appends one pending row with the id to the ledger, whether or not
  rows with the same id are there already: the rows before it stay as they are and there
  is one more row with the id.
\<close>

theorem Record_appends:
  assumes "marshal (NewActivityRecord action ident destination params result estatus mstatus
                      (FormatUint timepoint)) = Inr d"
  shows "\<exists>db'. Record marshal None action ident destination params result estatus mstatus
                 timepoint db = (None, db') \<and>
           activity db' = activity db @
             [\<lparr>act_id = activity_id_seq db, act_timepoint = Timepoint ident, act_eid = EID ident,
               act_created = MillisToTime timepoint, act_is_pending = True, act_data = d\<rparr>] \<and>
           length (filter (has_id ident) (activity db')) =
             length (filter (has_id ident) (activity db)) + 1"
  using assms by (simp add: Record_def Let_def has_id_def)

theorem Record_appends_witness:
  "demo_marshalActivity (NewActivityRecord ''deposit'' dep_1 ''binance'' () () [] []
       (FormatUint 500)) = Inr ''deposit:dep-1:'' \<and>
   (\<exists>db'. Record demo_marshalActivity None ''deposit'' dep_1 ''binance'' () () [] [] 500 one_pending
            = (None, db') \<and>
          map act_id (activity db') = [1, 2] \<and>
          length (filter (has_id dep_1) (activity db')) = 2)"
proof -
  have m: "demo_marshalActivity (NewActivityRecord ''deposit'' dep_1 ''binance'' () () [] []
       (FormatUint 500)) = Inr ''deposit:dep-1:''"
    by (simp add: demo_marshalActivity_def NewActivityRecord_def dep_1_def)
  have l: "length (filter (has_id dep_1) (activity one_pending)) = 1"
    "map act_id (activity one_pending) = [1]" "activity_id_seq one_pending = 2"
    by (simp_all add: one_pending_eq has_id_def dep_1_def)
  from Record_appends [where marshal = demo_marshalActivity and db = one_pending, OF m]
  obtain db' where
    "Record demo_marshalActivity None ''deposit'' dep_1 ''binance'' () () [] [] 500 one_pending
       = (None, db')"
    "activity db' = activity one_pending @
             [\<lparr>act_id = activity_id_seq one_pending, act_timepoint = Timepoint dep_1,
               act_eid = EID dep_1, act_created = MillisToTime 500, act_is_pending = True,
               act_data = ''deposit:dep-1:''\<rparr>]"
    "length (filter (has_id dep_1) (activity db')) =
       length (filter (has_id dep_1) (activity one_pending)) + 1"
    by blast
  with l m show ?thesis by simp
qed

lemma UpdateActivity_unencodable:
  "filter (has_id ident) (activity db) \<noteq> [] \<Longrightarrow> marshal act = Inl e \<Longrightarrow>
   UpdateActivity IsPending marshal None exec_fault ident act db = (Some e, db)"
  by (cases "filter (has_id ident) (activity db)") (auto simp: UpdateActivity_def db_Get_def)

lemma UpdateActivity_get_fault:
  "UpdateActivity IsPending marshal (Some e) exec_fault ident act db =
     (if e = ErrNoRows then None else Some e, db)"
  by (simp add: UpdateActivity_def db_Get_def)

lemma UpdateActivity_exec_fault:
  "filter (has_id ident) (activity db) \<noteq> [] \<Longrightarrow> marshal act = Inr dataBytes \<Longrightarrow>
   \<not> IsPending act \<Longrightarrow>
   UpdateActivity IsPending marshal None (Some e) ident act db = (Some e, db)"
  by (cases "filter (has_id ident) (activity db)") (auto simp: UpdateActivity_def db_Get_def)

text \<open>
  C5. The claim: for every record, \<^verbatim>\<open>UpdateActivity\<close> with a record that is still
  pending changes nothing and returns success. The source encodes the record (lines
  366-369) before it asks whether the record is pending (line 370): with a row for the id
  in the ledger and a pending record that cannot be encoded, the call returns the error of
  the encoder.
\<close>

theorem UpdateActivity_pending_unencodable_counterexample:
  "demo_IsPending pending_dep_1 \<and>
   filter (has_id dep_1) (activity one_pending) \<noteq> [] \<and>
   UpdateActivity demo_IsPending failing_marshalActivity None None dep_1 pending_dep_1 one_pending
     = (Some (ErrJSON ''unsupported value''), one_pending)"
  by (simp add: UpdateActivity_def db_Get_def one_pending_eq has_id_def dep_1_def
      failing_marshalActivity_def demo_IsPending_def pending_dep_1_def NewActivityRecord_def)

text \<open>
  C5, amended. When no row has the id, \<^verbatim>\<open>UpdateActivity\<close> returns no error and leaves
  the database as it is. When a row has the id and the record can be encoded: if the
  record is not pending, the call returns no error, every row with the id gets the encoded
  record as its payload and \<^verbatim>\<open>is_pending\<close> false, and nothing else changes; if the
  record is still pending, the call returns no error and leaves the database as it is.
  When a row has the id and the record cannot be encoded, the call returns the error of
  the encoder and changes nothing, also for a pending record. An error of the driver other
  than "no rows" comes back with the database unchanged. Whatever the driver and the
  encoder do, a call for an absent id or with a pending record changes nothing.
\<close>

theorem UpdateActivity_behaviour:
  "(filter (has_id ident) (activity db) = [] \<longrightarrow>
      UpdateActivity IsPending marshal None None ident act db = (None, db)) \<and>
   (filter (has_id ident) (activity db) \<noteq> [] \<and> marshal act = Inr dataBytes \<and> \<not> IsPending act \<longrightarrow>
      (\<exists>db'. UpdateActivity IsPending marshal None None ident act db = (None, db') \<and>
         db' = db\<lparr>activity := activity db'\<rparr> \<and>
         length (activity db') = length (activity db) \<and>
         (\<forall>i < length (activity db).
            if has_id ident (activity db ! i)
            then activity db' ! i =
                   (activity db ! i)\<lparr>act_is_pending := False, act_data := dataBytes\<rparr>
            else activity db' ! i = activity db ! i))) \<and>
   (filter (has_id ident) (activity db) \<noteq> [] \<and> marshal act = Inr dataBytes \<and> IsPending act \<longrightarrow>
      UpdateActivity IsPending marshal None None ident act db = (None, db)) \<and>
   (IsPending act \<or> filter (has_id ident) (activity db) = [] \<longrightarrow>
      snd (UpdateActivity IsPending marshal get_fault exec_fault ident act db) = db) \<and>
   (filter (has_id ident) (activity db) \<noteq> [] \<and> marshal act = Inl e \<longrightarrow>
      UpdateActivity IsPending marshal None exec_fault ident act db = (Some e, db)) \<and>
   UpdateActivity IsPending marshal (Some e) exec_fault ident act db =
     (if e = ErrNoRows then None else Some e, db) \<and>
   (filter (has_id ident) (activity db) \<noteq> [] \<and> marshal act = Inr dataBytes \<and> \<not> IsPending act \<longrightarrow>
      UpdateActivity IsPending marshal None (Some e) ident act db = (Some e, db))"
proof -
  have "snd (UpdateActivity IsPending marshal get_fault exec_fault ident act db) = db"
    if "IsPending act \<or> filter (has_id ident) (activity db) = []"
    using that
    by (auto simp: UpdateActivity_def db_Get_def split: option.splits sum.splits list.splits)
  then show ?thesis
    by (auto simp: UpdateActivity_absent UpdateActivity_present UpdateActivity_unencodable
        UpdateActivity_get_fault UpdateActivity_exec_fault settle_def)
qed

theorem UpdateActivity_behaviour_witness:
  "UpdateActivity demo_IsPending demo_marshalActivity None None \<lparr>Timepoint = 1, EID = ''other''\<rparr>
       settled_dep_1 one_pending = (None, one_pending) \<and>
   (\<exists>db'. UpdateActivity demo_IsPending demo_marshalActivity None None dep_1 settled_dep_1
             one_pending = (None, db') \<and>
          activity db' ! 0 =
            \<lparr>act_id = 1, act_timepoint = 500, act_eid = ''dep-1'', act_created = 500,
             act_is_pending = False, act_data = ''deposit:dep-1:mined''\<rparr>) \<and>
   UpdateActivity demo_IsPending demo_marshalActivity None None dep_1 pending_dep_1 one_pending
     = (None, one_pending) \<and>
   UpdateActivity demo_IsPending failing_marshalActivity None None dep_1 settled_dep_1 one_pending
     = (Some (ErrJSON ''unsupported value''), one_pending)"
proof -
  have absent: "filter (has_id \<lparr>Timepoint = 1, EID = ''other''\<rparr>) (activity one_pending) = []"
    by (simp add: one_pending_eq has_id_def)
  have present: "filter (has_id dep_1) (activity one_pending) \<noteq> []"
    by (simp add: one_pending_eq has_id_def dep_1_def)
  have row: "has_id dep_1 (activity one_pending ! 0)" "0 < length (activity one_pending)"
    "(activity one_pending ! 0)\<lparr>act_is_pending := False, act_data := ''deposit:dep-1:mined''\<rparr> =
       \<lparr>act_id = 1, act_timepoint = 500, act_eid = ''dep-1'', act_created = 500,
        act_is_pending = False, act_data = ''deposit:dep-1:mined''\<rparr>"
    by (simp_all add: one_pending_eq has_id_def dep_1_def)
  have ms: "demo_marshalActivity settled_dep_1 = Inr ''deposit:dep-1:mined''"
    and mp: "demo_marshalActivity pending_dep_1 = Inr ''deposit:dep-1:submitted''"
    by (simp_all add: demo_marshalActivity_def settled_dep_1_def pending_dep_1_def
        NewActivityRecord_def dep_1_def)
  have ps: "\<not> demo_IsPending settled_dep_1" and pp: "demo_IsPending pending_dep_1"
    by (simp_all add: demo_IsPending_def settled_dep_1_def pending_dep_1_def
        NewActivityRecord_def)
  from UpdateActivity_behaviour [where ident = "\<lparr>Timepoint = 1, EID = ''other''\<rparr>"
      and db = one_pending and IsPending = demo_IsPending and marshal = demo_marshalActivity
      and act = settled_dep_1] absent
  have 1: "UpdateActivity demo_IsPending demo_marshalActivity None None
             \<lparr>Timepoint = 1, EID = ''other''\<rparr> settled_dep_1 one_pending = (None, one_pending)"
    by blast
  from UpdateActivity_behaviour [where ident = dep_1 and db = one_pending
      and IsPending = demo_IsPending and marshal = demo_marshalActivity
      and act = settled_dep_1 and dataBytes = "''deposit:dep-1:mined''"] present ms ps
  obtain db' where u: "UpdateActivity demo_IsPending demo_marshalActivity None None dep_1
       settled_dep_1 one_pending = (None, db')"
    and n: "\<forall>i < length (activity one_pending).
            if has_id dep_1 (activity one_pending ! i)
            then activity db' ! i =
                   (activity one_pending ! i)\<lparr>act_is_pending := False,
                      act_data := ''deposit:dep-1:mined''\<rparr>
            else activity db' ! i = activity one_pending ! i"
    by blast
  from n row have "activity db' ! 0 =
       \<lparr>act_id = 1, act_timepoint = 500, act_eid = ''dep-1'', act_created = 500,
        act_is_pending = False, act_data = ''deposit:dep-1:mined''\<rparr>"
    by metis
  with u have 2: "\<exists>db'. UpdateActivity demo_IsPending demo_marshalActivity None None dep_1
       settled_dep_1 one_pending = (None, db') \<and>
          activity db' ! 0 =
            \<lparr>act_id = 1, act_timepoint = 500, act_eid = ''dep-1'', act_created = 500,
             act_is_pending = False, act_data = ''deposit:dep-1:mined''\<rparr>"
    by blast
  from UpdateActivity_behaviour [where ident = dep_1 and db = one_pending
      and IsPending = demo_IsPending and marshal = demo_marshalActivity
      and act = pending_dep_1 and dataBytes = "''deposit:dep-1:submitted''"] present mp pp
  have 3: "UpdateActivity demo_IsPending demo_marshalActivity None None dep_1 pending_dep_1
             one_pending = (None, one_pending)"
    by blast
  have mf: "failing_marshalActivity settled_dep_1 = Inl (ErrJSON ''unsupported value'')"
    by (simp add: failing_marshalActivity_def)
  from UpdateActivity_behaviour [where ident = dep_1 and db = one_pending
      and IsPending = demo_IsPending and marshal = failing_marshalActivity
      and act = settled_dep_1 and e = "ErrJSON ''unsupported value''" and exec_fault = None]
    present mf
  have 4: "UpdateActivity demo_IsPending failing_marshalActivity None None dep_1 settled_dep_1
             one_pending = (Some (ErrJSON ''unsupported value''), one_pending)"
    by blast
  from 1 2 3 4 show ?thesis by blast
qed

lemma UpdateActivity_twice:
  assumes "marshal act = Inr dataBytes" and "\<not> IsPending act"
    and "UpdateActivity IsPending marshal None None ident act db = (e1, db1)"
    and "UpdateActivity IsPending marshal None None ident act db1 = (e2, db2)"
  shows "e1 = None \<and> e2 = None \<and> db2 = db1"
proof (cases "filter (has_id ident) (activity db) = []")
  case True
  with assms(3) have "e1 = None" "db1 = db"
    by (simp_all add: UpdateActivity_absent)
  with True assms(4) show ?thesis
    by (simp add: UpdateActivity_absent)
next
  case False
  from UpdateActivity_present [of ident db marshal act dataBytes IsPending, OF False assms(1)]
    assms(2,3)
  have 1: "e1 = None" "db1 = db\<lparr>activity := map (settle ident dataBytes) (activity db)\<rparr>"
    by simp_all
  have "filter (has_id ident) (activity db1) \<noteq> []"
    using False by (simp add: 1 filter_has_id_settle)
  from UpdateActivity_present [of ident db1 marshal act dataBytes IsPending, OF this assms(1)]
    assms(2,4)
  have "e2 = None" "db2 = db1\<lparr>activity := map (settle ident dataBytes) (activity db1)\<rparr>"
    by simp_all
  with 1 show ?thesis
    by (simp add: comp_def settle_twice)
qed

text \<open>
  C6. The claim: for every settled record, a second \<^verbatim>\<open>UpdateActivity\<close> returns no error.
  With a row for the id in the ledger and a settled record that cannot be encoded, the
  second call returns the error of the encoder, as the first one does.
\<close>

theorem UpdateActivity_twice_unencodable_counterexample:
  "\<not> demo_IsPending settled_dep_1 \<and>
   fst (UpdateActivity demo_IsPending failing_marshalActivity None None dep_1 settled_dep_1
          (snd (UpdateActivity demo_IsPending failing_marshalActivity None None dep_1
                  settled_dep_1 one_pending)))
     = Some (ErrJSON ''unsupported value'')"
  by (simp add: UpdateActivity_def db_Get_def one_pending_eq has_id_def dep_1_def
      failing_marshalActivity_def demo_IsPending_def settled_dep_1_def NewActivityRecord_def)

text \<open>
  C6, amended. For every id and every record that is not pending, with the driver's calls
  going through: a second \<^verbatim>\<open>UpdateActivity\<close> with the same id and record leaves the
  database exactly as the first call left it and returns what the first call returned.
  That is no error when the record can be encoded or no row has the id, and the error of
  the encoder when a row has the id and the record cannot be encoded.
\<close>

theorem UpdateActivity_idempotent:
  assumes "\<not> IsPending act"
  shows "let once = UpdateActivity IsPending marshal None None ident act db;
             twice = UpdateActivity IsPending marshal None None ident act (snd once)
         in snd twice = snd once \<and> fst twice = fst once \<and>
            (marshal act = Inr dataBytes \<longrightarrow> fst once = None \<and> fst twice = None) \<and>
            (filter (has_id ident) (activity db) = [] \<longrightarrow> fst once = None \<and> fst twice = None) \<and>
            (filter (has_id ident) (activity db) \<noteq> [] \<and> marshal act = Inl e \<longrightarrow>
               fst once = Some e \<and> fst twice = Some e)"
proof (cases "filter (has_id ident) (activity db) = []")
  case True
  then show ?thesis by (simp add: UpdateActivity_absent Let_def)
next
  case False
  show ?thesis
  proof (cases "marshal act")
    case (Inl err)
    with False show ?thesis by (simp add: UpdateActivity_unencodable Let_def)
  next
    case (Inr bs)
    obtain e1 db1 where 1: "UpdateActivity IsPending marshal None None ident act db = (e1, db1)"
      by (cases "UpdateActivity IsPending marshal None None ident act db")
    obtain e2 db2 where 2: "UpdateActivity IsPending marshal None None ident act db1 = (e2, db2)"
      by (cases "UpdateActivity IsPending marshal None None ident act db1")
    from UpdateActivity_twice [OF Inr assms 1 2] 1 2 False Inr show ?thesis
      by (simp add: Let_def)
  qed
qed

theorem UpdateActivity_idempotent_witness:
  "demo_marshalActivity settled_dep_1 = Inr ''deposit:dep-1:mined'' \<and>
   \<not> demo_IsPending settled_dep_1 \<and>
   (let once = UpdateActivity demo_IsPending demo_marshalActivity None None dep_1 settled_dep_1
                 one_pending;
        twice = UpdateActivity demo_IsPending demo_marshalActivity None None dep_1 settled_dep_1
                  (snd once)
    in fst once = None \<and> fst twice = None \<and> snd twice = snd once \<and>
       map act_is_pending (activity (snd once)) = [False] \<and>
       map act_data (activity (snd once)) = [''deposit:dep-1:mined''])"
proof -
  have ms: "demo_marshalActivity settled_dep_1 = Inr ''deposit:dep-1:mined''"
    by (simp add: demo_marshalActivity_def settled_dep_1_def NewActivityRecord_def dep_1_def)
  have ps: "\<not> demo_IsPending settled_dep_1"
    by (simp add: demo_IsPending_def settled_dep_1_def NewActivityRecord_def)
  have once: "UpdateActivity demo_IsPending demo_marshalActivity None None dep_1 settled_dep_1
                one_pending =
       (None, \<lparr>fetch_data = [], fetch_data_id_seq = 1,
          activity = [\<lparr>act_id = 1, act_timepoint = 500, act_eid = ''dep-1'', act_created = 500,
                  act_is_pending = False, act_data = ''deposit:dep-1:mined''\<rparr>],
          activity_id_seq = 2\<rparr>)"
    by (simp add: UpdateActivity_def db_Get_def one_pending_eq has_id_def dep_1_def ms ps
        settle_def)
  from UpdateActivity_idempotent [where marshal = demo_marshalActivity and act = settled_dep_1
      and IsPending = demo_IsPending and ident = dep_1 and db = one_pending
      and dataBytes = "''deposit:dep-1:mined''", OF ps] ms ps
  show ?thesis
    by (simp add: Let_def once)
qed

text \<open>
  C8. The claim: every error of the storage or of the encoding comes back to the caller,
  in particular from \<^verbatim>\<open>StorePendingIntermediateTx\<close> when the entry cannot be encoded and
  from \<^verbatim>\<open>ExportExpiredAuthData\<close> when a payload cannot be written. In the source the
  first returns the nil \<^verbatim>\<open>err\<close> of the enclosing function instead of \<^verbatim>\<open>uErr\<close> (line
  92), and the second drops the result of \<^verbatim>\<open>outFile.Write(data)\<close> (line 239). With an
  entry that cannot be encoded the store is unchanged and no error is returned; with a
  sink that fails on the payload and accepts the newline, one record is counted, no error
  is returned, and the file holds the newline alone.
\<close>

theorem errors_discarded:
  "StorePendingIntermediateTx (\<lambda>d. Inl (ErrJSON ''unsupported value'')) demo_marshalID no_faults
     dep_1 ''tx'' empty_bolt = (None, empty_bolt) \<and>
   ExportExpiredAuthData 864000000 full_disk 864002000 one_auth_snapshot
     = (1, None, [[CHR 0x0A]])"
  by (simp add: StorePendingIntermediateTx_def db_Update_def no_faults_def Let_def
      ExportExpiredAuthData_def full_disk_def one_auth_snapshot_def storeFetchData_def
      empty_postgres_def MillisToTime_def)

end
